theory Spec2Isabelle
  imports Complex_Main "HOL-Library.Word"
begin

section \<open>The simulation drivers of protocols.cc\<close>

text \<open>
  The file \<^verbatim>\<open>finalproject/protocols.cc\<close> holds two driver classes, \<^verbatim>\<open>AodvExample\<close> and
  \<^verbatim>\<open>DsdvExample\<close>, and \<^verbatim>\<open>main\<close>. Every method is a sequence of calls into the simulation
  framework. The embedding records each such call, in program order, as a value of the
  datatype \<open>call\<close>; a method becomes a function from the object (and, where \<^verbatim>\<open>rand()\<close> is
  used, the state of the C library's generator) to the calls it makes and the updated
  object. The only computation the file does itself is in \<^verbatim>\<open>InstallApplications\<close>: three
  iterations over a local array of \<^verbatim>\<open>uint32_t\<close>, embedded with 32-bit words.
\<close>

subsection \<open>Data\<close>

type_synonym uint32_t = "32 word"

text \<open>
  The data members, lines 40-47 and 65-72 (the two classes declare the same members).
  \<open>size_m\<close> is the member \<^verbatim>\<open>size\<close>. A container is represented by the number of elements it
  holds. The member \<^verbatim>\<open>duration\<close> is a \<^verbatim>\<open>double\<close>; the record holds its value, a real number.
\<close>

record example =
  size_m :: uint32_t
  nodeRM :: uint32_t
  duration :: real
  pcap :: bool
  nodes :: nat
  devices :: nat
  interfaces :: nat

text \<open>
  An argument of type \<^verbatim>\<open>double\<close> that the file passes to the framework: \<open>Val r\<close> is the
  \<^verbatim>\<open>double\<close> that a literal of the file denotes or that a member holds, and \<open>Quot a b\<close> is
  the quotient \<^verbatim>\<open>a / b\<close> as the machine computes it on \<^verbatim>\<open>double\<close>. Floating-point arithmetic
  is not evaluated: a quotient is recorded with its operands, and so is a difference of times.
\<close>

datatype dbl = Val real | Quot dbl dbl

datatype time = Seconds dbl | TimeMinus time time

datatype attribute_value = StringValue string | UintegerValue nat | BooleanValue bool

datatype routing_helper = AodvHelper | DsdvHelper

text \<open>The variable an \<^verbatim>\<open>AddValue\<close> call binds by reference.\<close>

datatype member = M_pcap | M_size | M_duration | M_nodeRM

text \<open>
  The calls into the framework and the lines written to \<^verbatim>\<open>std::cout\<close>. Container arguments
  are left out where the method has only one container to pass; an index into a container is
  recorded as the number the code computes.
\<close>

datatype call =
    Cout string
  | AddValue string string member
  | Parse
  | SetSeed nat
  | NodesCreate uint32_t
  | NamesAdd string nat
  | SetPositionAllocator string "(string \<times> attribute_value) list"
  | SetMobilityModel string
  | MobilityInstall nat
  | WifiMacSetType string
  | YansWifiPhyHelperDefault
  | YansWifiChannelHelperDefault
  | WifiPhySetChannel
  | SetRemoteStationManager string "(string \<times> attribute_value) list"
  | WifiInstall nat
  | EnablePcapAll string
  | SetRoutingHelper routing_helper
  | StackInstall nat
  | SetBase string string
  | AddressAssign nat
  | CreateOutputStreamWrapper string
  | PrintRoutingTableAllAt routing_helper time string
  | V4PingHelper_GetAddress nat
  | PingSetAttribute string attribute_value
  | PingInstall nat
  | AppStart time
  | AppStop time
  | Schedule_SetPosition time nat real real real
  | SimulatorStop time
  | SimulatorRun
  | SimulatorDestroy

subsection \<open>The command line\<close>

text \<open>
  \<^verbatim>\<open>CommandLine\<close> belongs to the framework. Its interface is embedded as follows: \<^verbatim>\<open>AddValue\<close>
  appends an item (name, help text, bound member) to the parser, and \<^verbatim>\<open>Parse\<close> handles the
  arguments in order, assigning the value of an argument to the member bound to the first
  item of that name. The arguments are taken as the framework has read them from \<^verbatim>\<open>argv\<close>:
  a name and a value. How the framework reports an argument it does not accept (an unknown
  name, a value of another type) is not part of this file and is not embedded: such an
  argument changes no member.
\<close>

datatype cli_value = BoolV bool | UintV uint32_t | DoubleV real

type_synonym item = "string \<times> string \<times> member"

type_synonym CommandLine = "item list"

definition cmd_AddValue :: "string \<Rightarrow> string \<Rightarrow> member \<Rightarrow> CommandLine \<Rightarrow> CommandLine" where
  "cmd_AddValue name help m cmd = cmd @ [(name, help, m)]"

fun assign :: "member \<Rightarrow> cli_value \<Rightarrow> example \<Rightarrow> example" where
  "assign M_pcap (BoolV b) ex = ex\<lparr>pcap := b\<rparr>"
| "assign M_size (UintV n) ex = ex\<lparr>size_m := n\<rparr>"
| "assign M_duration (DoubleV d) ex = ex\<lparr>duration := d\<rparr>"
| "assign M_nodeRM (UintV n) ex = ex\<lparr>nodeRM := n\<rparr>"
| "assign _ _ ex = ex"

fun find_item :: "CommandLine \<Rightarrow> string \<Rightarrow> member option" where
  "find_item [] name = None"
| "find_item ((n, h, m) # cmd) name = (if n = name then Some m else find_item cmd name)"

definition HandleArgument :: "CommandLine \<Rightarrow> string \<times> cli_value \<Rightarrow> example \<Rightarrow> example" where
  "HandleArgument cmd arg ex =
     (case find_item cmd (fst arg) of None \<Rightarrow> ex | Some m \<Rightarrow> assign m (snd arg) ex)"

fun cmd_Parse :: "CommandLine \<Rightarrow> (string \<times> cli_value) list \<Rightarrow> example \<Rightarrow> example" where
  "cmd_Parse cmd [] ex = ex"
| "cmd_Parse cmd (arg # args) ex = cmd_Parse cmd args (HandleArgument cmd arg ex)"

definition cmd_calls :: "CommandLine \<Rightarrow> call list" where
  "cmd_calls cmd = map (\<lambda>(n, h, m). AddValue n h m) cmd"

subsection \<open>Constructors and Configure\<close>

text \<open>Lines 129-136.\<close>

definition AodvExample :: example where
  "AodvExample = \<lparr>size_m = 5, nodeRM = 1, duration = 50, pcap = False,
                   nodes = 0, devices = 0, interfaces = 0\<rparr>"

text \<open>Lines 298-304.\<close>

definition DsdvExample :: example where
  "DsdvExample = \<lparr>size_m = 5, nodeRM = 1, duration = 50, pcap = False,
                   nodes = 0, devices = 0, interfaces = 0\<rparr>"

text \<open>Lines 147-152: the parser after the four \<^verbatim>\<open>AddValue\<close> calls.\<close>

definition Aodv_cmd :: CommandLine where
  "Aodv_cmd =
     cmd_AddValue ''fail'' ''Number of Nodes to move away.'' M_nodeRM
       (cmd_AddValue ''time'' ''Simulation time, s.'' M_duration
         (cmd_AddValue ''size'' ''Number of nodes.'' M_size
           (cmd_AddValue ''pcap'' ''Write PCAP traces.'' M_pcap [])))"

text \<open>
  Lines 142-166. The result is the returned \<^verbatim>\<open>bool\<close>, the calls made and the object after
  the call.
\<close>

definition Aodv_Configure ::
  "(string \<times> cli_value) list \<Rightarrow> example \<Rightarrow> bool \<times> call list \<times> example" where
  "Aodv_Configure argv ex =
     (let ex' = cmd_Parse Aodv_cmd argv ex;
          seed = (if size_m ex' = 45 then SetSeed 8765 else SetSeed 1234)
      in (True, cmd_calls Aodv_cmd @ [Parse, seed], ex'))"

text \<open>Lines 315-320.\<close>

definition Dsdv_cmd :: CommandLine where
  "Dsdv_cmd =
     cmd_AddValue ''fail'' ''Number of Nodes to move away.'' M_nodeRM
       (cmd_AddValue ''time'' ''Simulation time, s.'' M_duration
         (cmd_AddValue ''size'' ''Number of nodes.'' M_size
           (cmd_AddValue ''pcap'' ''Write PCAP traces.'' M_pcap [])))"

text \<open>Lines 310-332.\<close>

definition Dsdv_Configure ::
  "(string \<times> cli_value) list \<Rightarrow> example \<Rightarrow> bool \<times> call list \<times> example" where
  "Dsdv_Configure argv ex =
     (let ex' = cmd_Parse Dsdv_cmd argv ex;
          seed = (if size_m ex' = 45 then SetSeed 8765 else SetSeed 1234)
      in (True, cmd_calls Dsdv_cmd @ [Parse, seed], ex'))"

subsection \<open>Printing an unsigned number\<close>

text \<open>\<^verbatim>\<open>os << i\<close> for an unsigned \<^verbatim>\<open>i\<close>: the decimal digits, most significant first.\<close>

function string_of_nat :: "nat \<Rightarrow> string" where
  "string_of_nat n =
     (if n < 10 then [char_of (48 + n)]
      else string_of_nat (n div 10) @ [char_of (48 + n mod 10)])"
  by pat_completeness auto
termination
  by (relation "measure id") auto

subsection \<open>CreateNodes, CreateDevices, InstallInternetStack\<close>

text \<open>The loop of lines 198-202 (and 364-368), from index \<open>i\<close> on.\<close>

function names_loop :: "uint32_t \<Rightarrow> uint32_t \<Rightarrow> call list" where
  "names_loop i sz =
     (if i < sz
      then NamesAdd (''node('' @ string_of_nat (unat i) @ '')'') (unat i) # names_loop (i + 1) sz
      else [])"
  by pat_completeness auto
termination
  by (relation "measure (\<lambda>(i, sz). unat sz - unat i)") (simp, unat_arith)

text \<open>Lines 192-211. \<^verbatim>\<open>nodes.Create (size)\<close> adds \<^verbatim>\<open>size\<close> nodes to the container.\<close>

definition Aodv_CreateNodes :: "example \<Rightarrow> call list \<times> example" where
  "Aodv_CreateNodes ex =
     (let ex' = ex\<lparr>nodes := nodes ex + unat (size_m ex)\<rparr>
      in ([Cout (''Creating '' @ string_of_nat (unat (size_m ex)) @ '' nodes ''),
           Cout ''Nodes will be 175m apart.'',
           NodesCreate (size_m ex)]
          @ names_loop 0 (size_m ex)
          @ [SetPositionAllocator ''ns3::RandomDiscPositionAllocator''
               [(''X'', StringValue ''175.0''),
                (''Y'', StringValue ''175.0''),
                (''Rho'', StringValue ''ns3::UniformRandomVariable[Min=0|Max=125]'')],
             SetMobilityModel ''ns3::ConstantPositionMobilityModel'',
             MobilityInstall (nodes ex')],
          ex'))"

text \<open>Lines 358-377.\<close>

definition Dsdv_CreateNodes :: "example \<Rightarrow> call list \<times> example" where
  "Dsdv_CreateNodes ex =
     (let ex' = ex\<lparr>nodes := nodes ex + unat (size_m ex)\<rparr>
      in ([Cout (''Creating '' @ string_of_nat (unat (size_m ex)) @ '' nodes ''),
           Cout ''Nodes will be 175m apart.'',
           NodesCreate (size_m ex)]
          @ names_loop 0 (size_m ex)
          @ [SetPositionAllocator ''ns3::RandomDiscPositionAllocator''
               [(''X'', StringValue ''175.0''),
                (''Y'', StringValue ''175.0''),
                (''Rho'', StringValue ''ns3::UniformRandomVariable[Min=0|Max=125]'')],
             SetMobilityModel ''ns3::ConstantPositionMobilityModel'',
             MobilityInstall (nodes ex')],
          ex'))"

text \<open>
  Lines 217-232. \<^verbatim>\<open>wifi.Install\<close> returns one device for each node of the container it is
  given.
\<close>

definition Aodv_CreateDevices :: "example \<Rightarrow> call list \<times> example" where
  "Aodv_CreateDevices ex =
     ([WifiMacSetType ''ns3::AdhocWifiMac'',
       YansWifiPhyHelperDefault,
       YansWifiChannelHelperDefault,
       WifiPhySetChannel,
       SetRemoteStationManager ''ns3::ConstantRateWifiManager''
         [(''DataMode'', StringValue ''OfdmRate6Mbps''),
          (''RtsCtsThreshold'', UintegerValue 0)],
       WifiInstall (nodes ex)]
      @ (if pcap ex then [EnablePcapAll ''aodv''] else []),
      ex\<lparr>devices := nodes ex\<rparr>)"

text \<open>Lines 383-398.\<close>

definition Dsdv_CreateDevices :: "example \<Rightarrow> call list \<times> example" where
  "Dsdv_CreateDevices ex =
     ([WifiMacSetType ''ns3::AdhocWifiMac'',
       YansWifiPhyHelperDefault,
       YansWifiChannelHelperDefault,
       WifiPhySetChannel,
       SetRemoteStationManager ''ns3::ConstantRateWifiManager''
         [(''DataMode'', StringValue ''OfdmRate6Mbps''),
          (''RtsCtsThreshold'', UintegerValue 0)],
       WifiInstall (nodes ex)]
      @ (if pcap ex then [EnablePcapAll ''dsdv''] else []),
      ex\<lparr>devices := nodes ex\<rparr>)"

text \<open>
  Lines 238-250. \<^verbatim>\<open>address.Assign\<close> returns one interface for each device of the container
  it is given.
\<close>

definition Aodv_InstallInternetStack :: "example \<Rightarrow> call list \<times> example" where
  "Aodv_InstallInternetStack ex =
     ([SetRoutingHelper AodvHelper,
       StackInstall (nodes ex),
       SetBase ''10.0.0.0'' ''255.0.0.0'',
       AddressAssign (devices ex),
       CreateOutputStreamWrapper ''aodv.routes'',
       PrintRoutingTableAllAt AodvHelper (Seconds (Val 8)) ''aodv.routes''],
      ex\<lparr>interfaces := devices ex\<rparr>)"

text \<open>Lines 404-416.\<close>

definition Dsdv_InstallInternetStack :: "example \<Rightarrow> call list \<times> example" where
  "Dsdv_InstallInternetStack ex =
     ([SetRoutingHelper DsdvHelper,
       StackInstall (nodes ex),
       SetBase ''10.0.0.0'' ''255.0.0.0'',
       AddressAssign (devices ex),
       CreateOutputStreamWrapper ''dsdv.routes'',
       PrintRoutingTableAllAt DsdvHelper (Seconds (Val 8)) ''dsdv.routes''],
      ex\<lparr>interfaces := devices ex\<rparr>)"

subsection \<open>InstallApplications\<close>

text \<open>
  \<^verbatim>\<open>rand()\<close>: the generator is a sequence of draws and the position of the next one; a draw
  lies between 0 and \<^verbatim>\<open>RAND_MAX\<close>, taken as \<open>2^31 - 1\<close>.
\<close>

type_synonym rand_state = "(nat \<Rightarrow> nat) \<times> nat"

definition RAND_MAX :: nat where
  "RAND_MAX = 2147483647"

fun rand :: "rand_state \<Rightarrow> nat \<times> rand_state" where
  "rand (draws, p) = (draws p mod (RAND_MAX + 1), (draws, Suc p))"

text \<open>
  An index that is out of range, in the local array \<^verbatim>\<open>numbers\<close> or in a container of the
  framework: the behaviour of the program is undefined from there on, and the embedding
  stops with the access and the index.
\<close>

datatype fault =
    OutOfRange_GetAddress nat
  | OutOfRange_NodesGet nat
  | OutOfRange_numbers int

text \<open>
  The loop of lines 267-274 (and 433-440), from index \<open>i\<close> on. \<^verbatim>\<open>count\<close> is an \<^verbatim>\<open>int\<close>; the
  assignment \<^verbatim>\<open>numbers[i]=count\<close> converts it to \<^verbatim>\<open>uint32_t\<close>, which is \<open>word_of_int\<close> of
  its value. \<^verbatim>\<open>count\<close> is embedded as an unbounded integer. Its value passes \<^verbatim>\<open>INT_MAX\<close> only when
  \<^verbatim>\<open>numbers\<close> has \<open>2^31 - 1\<close> elements or more, that is for \<^verbatim>\<open>size\<close> 1 and for \<^verbatim>\<open>size\<close> above \<open>2^31\<close>;
  the increment is then undefined in C++, and the embedding goes on with the value that an
  increment wrapping around would store as well.
\<close>

function numbers_init :: "uint32_t \<Rightarrow> int \<Rightarrow> uint32_t list \<Rightarrow> uint32_t \<Rightarrow> fault + uint32_t list" where
  "numbers_init i count numbers sz =
     (if i < sz - 2
      then let count' = (if i = sz div 2 then count + 1 else count)
           in if unat i < length numbers
              then numbers_init (i + 1) (count' + 1) (numbers[unat i := word_of_int count']) sz
              else Inl (OutOfRange_numbers (uint i))
      else Inr numbers)"
  by pat_completeness auto
termination
  by (relation "measure (\<lambda>(i, count, numbers, sz). unat (sz - 2) - unat i)") (simp, unat_arith)

text \<open>
  The loop of lines 276-282 (and 442-448). In \<^verbatim>\<open>rand() % (size-2)\<close> the draw is converted to
  \<^verbatim>\<open>uint32_t\<close> and the remainder is unsigned; \<^verbatim>\<open>k\<close> is an \<^verbatim>\<open>int\<close>, the remainder read as a
  signed value.
\<close>

function numbers_shuffle ::
  "uint32_t \<Rightarrow> uint32_t list \<Rightarrow> uint32_t \<Rightarrow> rand_state \<Rightarrow> fault + (uint32_t list \<times> rand_state)" where
  "numbers_shuffle i numbers sz rs =
     (if i < sz - 2
      then let (r, rs') = rand rs;
               k = sint ((word_of_nat r :: uint32_t) mod (sz - 2))
           in if \<not> unat i < length numbers then Inl (OutOfRange_numbers (uint i))
              else if \<not> (0 \<le> k \<and> nat k < length numbers) then Inl (OutOfRange_numbers k)
              else let temp = numbers ! unat i;
                       numbers' = numbers[unat i := numbers ! nat k];
                       numbers'' = numbers'[nat k := temp]
                   in numbers_shuffle (i + 1) numbers'' sz rs'
      else Inr (numbers, rs))"
  by pat_completeness auto
termination
  by (relation "measure (\<lambda>(i, numbers, sz, rs). unat (sz - 2) - unat i)") (simp, unat_arith)

text \<open>
  The order in which the three arguments of \<^verbatim>\<open>Vector (rand()%10000, rand()%10000,
  rand()%10000)\<close> are evaluated: \<open>XYZ\<close> is from left to right, \<open>ZYX\<close> from right to left.
  \<open>arguments\<close> gives the values that the first, second and third argument are computed from
  when the three calls of \<^verbatim>\<open>rand()\<close> return \<open>d0\<close>, \<open>d1\<close> and \<open>d2\<close>, in the order in which they are
  made. C++ leaves the order to the compiler, and it need not be the same each time the
  expression is evaluated; so it is a parameter of the embedding, a function \<open>ord\<close> that gives
  the order for each iteration of the loop.
\<close>

datatype evaluation_order = XYZ | XZY | YXZ | YZX | ZXY | ZYX

fun arguments :: "evaluation_order \<Rightarrow> nat \<times> nat \<times> nat \<Rightarrow> nat \<times> nat \<times> nat" where
  "arguments XYZ (d0, d1, d2) = (d0, d1, d2)"
| "arguments XZY (d0, d1, d2) = (d0, d2, d1)"
| "arguments YXZ (d0, d1, d2) = (d1, d0, d2)"
| "arguments YZX (d0, d1, d2) = (d2, d0, d1)"
| "arguments ZXY (d0, d1, d2) = (d1, d2, d0)"
| "arguments ZYX (d0, d1, d2) = (d2, d1, d0)"

type_synonym evaluation_orders = "nat \<Rightarrow> evaluation_order"

text \<open>
  The loop of lines 284-288 (and 450-455). The time of the event is \<^verbatim>\<open>Seconds (duration/2)\<close>,
  a quotient of two values of type \<^verbatim>\<open>double\<close>. The coordinates are values of \<^verbatim>\<open>int\<close> below
  10000, which the conversion to \<^verbatim>\<open>double\<close> keeps.
\<close>

function relocate_loop ::
  "evaluation_orders \<Rightarrow> uint32_t \<Rightarrow> example \<Rightarrow> uint32_t list \<Rightarrow> rand_state
   \<Rightarrow> fault + (call list \<times> rand_state)" where
  "relocate_loop ord i ex numbers rs =
     (if i < nodeRM ex
      then if \<not> unat i < length numbers then Inl (OutOfRange_numbers (uint i))
           else let n = numbers ! unat i
                in if \<not> unat n < nodes ex then Inl (OutOfRange_NodesGet (unat n))
                   else let (d0, rs1) = rand rs;
                            (d1, rs2) = rand rs1;
                            (d2, rs3) = rand rs2;
                            (x, y, z) = arguments (ord (unat i)) (d0, d1, d2)
                        in (case relocate_loop ord (i + 1) ex numbers rs3 of
                              Inl e \<Rightarrow> Inl e
                            | Inr (cs, rs') \<Rightarrow>
                                Inr (Schedule_SetPosition (Seconds (Quot (Val (duration ex)) (Val 2))) (unat n)
                                       (real (x mod 10000)) (real (y mod 10000)) (real (z mod 10000))
                                     # cs, rs'))
      else Inr ([], rs))"
  by pat_completeness auto
termination
  by (relation "measure (\<lambda>(ord, i, ex, numbers, rs). unat (nodeRM ex) - unat i)") (simp, unat_arith)

text \<open>
  Lines 256-289 and 422-456: the two functions have the same text. The array \<^verbatim>\<open>numbers\<close> has
  \<^verbatim>\<open>size-2\<close> elements (an unsigned difference); its elements are indeterminate until the
  first loop has written them. The declaration is embedded as a list of that length: whether
  the program can allocate the array is not part of the embedding.
\<close>

definition Aodv_InstallApplications ::
  "evaluation_orders \<Rightarrow> example \<Rightarrow> rand_state \<Rightarrow> fault + (call list \<times> rand_state)" where
  "Aodv_InstallApplications ord ex rs =
     (if \<not> unat (size_m ex - 1) < interfaces ex
      then Inl (OutOfRange_GetAddress (unat (size_m ex - 1)))
      else if \<not> unat (size_m ex div 2) < nodes ex
      then Inl (OutOfRange_NodesGet (unat (size_m ex div 2)))
      else case numbers_init 0 0 (replicate (unat (size_m ex - 2)) 0) (size_m ex) of
             Inl e \<Rightarrow> Inl e
           | Inr numbers \<Rightarrow>
               (case numbers_shuffle 0 numbers (size_m ex) rs of
                  Inl e \<Rightarrow> Inl e
                | Inr (numbers', rs') \<Rightarrow>
                    (case relocate_loop ord 0 ex numbers' rs' of
                       Inl e \<Rightarrow> Inl e
                     | Inr (cs, rs'') \<Rightarrow>
                         Inr ([V4PingHelper_GetAddress (unat (size_m ex - 1)),
                               PingSetAttribute ''Verbose'' (BooleanValue True),
                               PingInstall (unat (size_m ex div 2)),
                               AppStart (Seconds (Val 0)),
                               AppStop (TimeMinus (Seconds (Val (duration ex))) (Seconds (Val 0.001)))]
                              @ cs, rs''))))"

definition Dsdv_InstallApplications ::
  "evaluation_orders \<Rightarrow> example \<Rightarrow> rand_state \<Rightarrow> fault + (call list \<times> rand_state)" where
  "Dsdv_InstallApplications ord ex rs =
     (if \<not> unat (size_m ex - 1) < interfaces ex
      then Inl (OutOfRange_GetAddress (unat (size_m ex - 1)))
      else if \<not> unat (size_m ex div 2) < nodes ex
      then Inl (OutOfRange_NodesGet (unat (size_m ex div 2)))
      else case numbers_init 0 0 (replicate (unat (size_m ex - 2)) 0) (size_m ex) of
             Inl e \<Rightarrow> Inl e
           | Inr numbers \<Rightarrow>
               (case numbers_shuffle 0 numbers (size_m ex) rs of
                  Inl e \<Rightarrow> Inl e
                | Inr (numbers', rs') \<Rightarrow>
                    (case relocate_loop ord 0 ex numbers' rs' of
                       Inl e \<Rightarrow> Inl e
                     | Inr (cs, rs'') \<Rightarrow>
                         Inr ([V4PingHelper_GetAddress (unat (size_m ex - 1)),
                               PingSetAttribute ''Verbose'' (BooleanValue True),
                               PingInstall (unat (size_m ex div 2)),
                               AppStart (Seconds (Val 0)),
                               AppStop (TimeMinus (Seconds (Val (duration ex))) (Seconds (Val 0.001)))]
                              @ cs, rs''))))"

subsection \<open>Run and main\<close>

text \<open>Lines 172-185.\<close>

definition Aodv_Run ::
  "evaluation_orders \<Rightarrow> example \<Rightarrow> rand_state \<Rightarrow> fault + (call list \<times> example \<times> rand_state)" where
  "Aodv_Run ord ex rs =
     (let (c1, ex1) = Aodv_CreateNodes ex;
          (c2, ex2) = Aodv_CreateDevices ex1;
          (c3, ex3) = Aodv_InstallInternetStack ex2
      in case Aodv_InstallApplications ord ex3 rs of
           Inl e \<Rightarrow> Inl e
         | Inr (c4, rs') \<Rightarrow>
             Inr (c1 @ c2 @ c3 @ c4
                  @ [Cout ''Starting simulation'',
                     SimulatorStop (Seconds (Val (duration ex3))),
                     SimulatorRun,
                     SimulatorDestroy],
                  ex3, rs'))"

text \<open>Lines 338-351.\<close>

definition Dsdv_Run ::
  "evaluation_orders \<Rightarrow> example \<Rightarrow> rand_state \<Rightarrow> fault + (call list \<times> example \<times> rand_state)" where
  "Dsdv_Run ord ex rs =
     (let (c1, ex1) = Dsdv_CreateNodes ex;
          (c2, ex2) = Dsdv_CreateDevices ex1;
          (c3, ex3) = Dsdv_InstallInternetStack ex2
      in case Dsdv_InstallApplications ord ex3 rs of
           Inl e \<Rightarrow> Inl e
         | Inr (c4, rs') \<Rightarrow>
             Inr (c1 @ c2 @ c3 @ c4
                  @ [Cout ''Starting simulation'',
                     SimulatorStop (Seconds (Val (duration ex3))),
                     SimulatorRun,
                     SimulatorDestroy],
                  ex3, rs'))"

text \<open>
  Lines 89-120. \<open>select\<close> is the character read from \<^verbatim>\<open>std::cin\<close>. \<^verbatim>\<open>main\<close> returns 0 on each
  of its three paths; \<^verbatim>\<open>NS_FATAL_ERROR\<close> ends the program with its message. The body of
  \<^verbatim>\<open>main\<close> is embedded with the four methods it calls as parameters (\<open>main_with\<close>), so that
  what \<^verbatim>\<open>main\<close> does with the result of \<^verbatim>\<open>Configure\<close> can be stated for any result; \<open>main\<close>
  is this body with the methods of the two classes.
\<close>

datatype outcome =
    Returned int "call list"
  | FatalError string "call list"
  | Undefined fault "call list"

type_synonym configure = "(string \<times> cli_value) list \<Rightarrow> example \<Rightarrow> bool \<times> call list \<times> example"

type_synonym run = "example \<Rightarrow> rand_state \<Rightarrow> fault + (call list \<times> example \<times> rand_state)"

definition main_with ::
  "configure \<Rightarrow> run \<Rightarrow> configure \<Rightarrow> run \<Rightarrow> (string \<times> cli_value) list \<Rightarrow> char \<Rightarrow> rand_state
   \<Rightarrow> outcome" where
  "main_with aodv_Configure aodv_Run dsdv_Configure dsdv_Run argv select rs =
     (let out0 = [Cout ''Enter 'a' for AODV, or 'd' for DSDV'']
      in if select = CHR ''a''
         then let out1 = out0 @ [Cout ''Initiating AODV test...''];
                  (ok, c, test) = aodv_Configure argv AodvExample
              in if \<not> ok then FatalError ''Configuration failed. Aborted.'' (out1 @ c)
                 else (case aodv_Run test rs of
                         Inl e \<Rightarrow> Undefined e (out1 @ c)
                       | Inr (c', test', rs') \<Rightarrow> Returned 0 (out1 @ c @ c'))
         else if select = CHR ''d''
         then let out1 = out0 @ [Cout ''Initiating DSDV test...''];
                  (ok, c, test) = dsdv_Configure argv DsdvExample
              in if \<not> ok then FatalError ''Configuration failed. Aborted.'' (out1 @ c)
                 else (case dsdv_Run test rs of
                         Inl e \<Rightarrow> Undefined e (out1 @ c)
                       | Inr (c', test', rs') \<Rightarrow> Returned 0 (out1 @ c @ c'))
         else Returned 0 (out0 @ [Cout ''ERROR: Incorrect selection, please run again.'']))"

definition main ::
  "evaluation_orders \<Rightarrow> (string \<times> cli_value) list \<Rightarrow> char \<Rightarrow> rand_state \<Rightarrow> outcome" where
  "main ord = main_with Aodv_Configure (Aodv_Run ord) Dsdv_Configure (Dsdv_Run ord)"

section \<open>Notions used to state the properties\<close>

text \<open>The \<open>n\<close>-th value that \<^verbatim>\<open>rand()\<close> returns from the state \<open>rs\<close> on, counting from 0.\<close>

definition draw :: "rand_state \<Rightarrow> nat \<Rightarrow> nat" where
  "draw rs n = fst rs (snd rs + n) mod (RAND_MAX + 1)"

text \<open>
  The \<open>j\<close>-th call of \<^verbatim>\<open>Simulator::Schedule\<close> in the last loop of \<^verbatim>\<open>InstallApplications\<close>, for the
  array \<open>ns\<close> and the generator state \<open>rs\<close> the loop starts with: the three coordinates are
  computed from the draws \<open>3j\<close>, \<open>3j + 1\<close> and \<open>3j + 2\<close>, assigned to the arguments as the order of
  evaluation \<open>ord\<close> has it.
\<close>

definition relocation ::
  "evaluation_orders \<Rightarrow> example \<Rightarrow> uint32_t list \<Rightarrow> rand_state \<Rightarrow> nat \<Rightarrow> call" where
  "relocation ord ex ns rs j =
     (let (x, y, z) = arguments (ord j) (draw rs (3 * j), draw rs (3 * j + 1), draw rs (3 * j + 2))
      in Schedule_SetPosition (Seconds (Quot (Val (duration ex)) (Val 2))) (unat (ns ! j))
           (real (x mod 10000)) (real (y mod 10000)) (real (z mod 10000)))"

text \<open>The contents of \<^verbatim>\<open>numbers\<close> after the first loop, in closed form.\<close>

definition init_list :: "uint32_t \<Rightarrow> uint32_t list" where
  "init_list sz =
     map (\<lambda>j. if j < unat (sz div 2) then word_of_nat j else word_of_nat j + 1) [0..<unat (sz - 2)]"

text \<open>The flags registered, the seeds set, the nodes pinged from and relocated in a list of calls.\<close>

definition registered :: "call list \<Rightarrow> (string \<times> member) list" where
  "registered cs = concat (map (\<lambda>c. case c of AddValue n h m \<Rightarrow> [(n, m)] | _ \<Rightarrow> []) cs)"

definition seeds :: "call list \<Rightarrow> nat list" where
  "seeds cs = concat (map (\<lambda>c. case c of SetSeed n \<Rightarrow> [n] | _ \<Rightarrow> []) cs)"

definition ping_targets :: "call list \<Rightarrow> nat list" where
  "ping_targets cs = concat (map (\<lambda>c. case c of V4PingHelper_GetAddress n \<Rightarrow> [n] | _ \<Rightarrow> []) cs)"

definition ping_installs :: "call list \<Rightarrow> nat list" where
  "ping_installs cs = concat (map (\<lambda>c. case c of PingInstall n \<Rightarrow> [n] | _ \<Rightarrow> []) cs)"

definition relocated :: "call list \<Rightarrow> nat list" where
  "relocated cs =
     concat (map (\<lambda>c. case c of Schedule_SetPosition t n x y z \<Rightarrow> [n] | _ \<Rightarrow> []) cs)"

text \<open>
  What the two classes differ in: a call of the AODV driver is turned into the call of the
  DSDV driver by replacing the routing helper and the prefix \<^verbatim>\<open>aodv\<close> of a file name.
\<close>

definition dsdv_name :: "string \<Rightarrow> string" where
  "dsdv_name s = (if take 4 s = ''aodv'' then ''dsdv'' @ drop 4 s else s)"

definition to_dsdv :: "call \<Rightarrow> call" where
  "to_dsdv c =
     (case c of
        EnablePcapAll s \<Rightarrow> EnablePcapAll (dsdv_name s)
      | SetRoutingHelper h \<Rightarrow> SetRoutingHelper DsdvHelper
      | CreateOutputStreamWrapper s \<Rightarrow> CreateOutputStreamWrapper (dsdv_name s)
      | PrintRoutingTableAllAt h t s \<Rightarrow> PrintRoutingTableAllAt DsdvHelper t (dsdv_name s)
      | _ \<Rightarrow> c)"

text \<open>Whether \<^verbatim>\<open>main\<close> ended in \<^verbatim>\<open>NS_FATAL_ERROR\<close>.\<close>

definition fatal :: "outcome \<Rightarrow> bool" where
  "fatal r = (case r of FatalError msg cs \<Rightarrow> True | _ \<Rightarrow> False)"

text \<open>
  The object when \<^verbatim>\<open>Run\<close> calls \<^verbatim>\<open>InstallApplications\<close>, that is, after \<^verbatim>\<open>CreateNodes\<close>,
  \<^verbatim>\<open>CreateDevices\<close> and \<^verbatim>\<open>InstallInternetStack\<close> (the two classes leave the same object).
\<close>

definition after_setup :: "example \<Rightarrow> example" where
  "after_setup ex =
     snd (Aodv_InstallInternetStack (snd (Aodv_CreateDevices (snd (Aodv_CreateNodes ex)))))"

text \<open>Concrete inputs for the examples.\<close>

definition argv0 :: "(string \<times> cli_value) list" where
  "argv0 = [(''pcap'', BoolV True), (''size'', UintV 10), (''time'', DoubleV 20), (''fail'', UintV 2)]"

text \<open>A generator state, and the object of either class after some command lines.\<close>

definition rs0 :: rand_state where
  "rs0 = (\<lambda>n. 7 * n + 3, 0)"

text \<open>The arguments evaluated from right to left, or from left to right, in every iteration.\<close>

definition right_to_left :: evaluation_orders where
  "right_to_left = (\<lambda>i. ZYX)"

definition left_to_right :: evaluation_orders where
  "left_to_right = (\<lambda>i. XYZ)"

definition example_fail2 :: example where
  "example_fail2 = AodvExample\<lparr>nodeRM := 2\<rparr>"

definition example_fail4 :: example where
  "example_fail4 = AodvExample\<lparr>nodeRM := 4\<rparr>"

definition example_size2 :: example where
  "example_size2 = AodvExample\<lparr>size_m := 2\<rparr>"


section \<open>Lemmas\<close>

declare names_loop.simps [simp del]
declare numbers_init.simps [simp del]
declare numbers_shuffle.simps [simp del]
declare relocate_loop.simps [simp del]
declare string_of_nat.simps [simp del]

lemma after_setup_record:
  "after_setup ex =
     ex\<lparr>nodes := nodes ex + unat (size_m ex),
        devices := nodes ex + unat (size_m ex),
        interfaces := nodes ex + unat (size_m ex)\<rparr>"
  by (simp add: after_setup_def Aodv_InstallInternetStack_def Aodv_CreateDevices_def
      Aodv_CreateNodes_def Let_def)

lemma unat_succ: "i < (b::uint32_t) \<Longrightarrow> unat (i + 1) = Suc (unat i)"
  by unat_arith

lemma names_loop_map:
  "i \<le> sz \<Longrightarrow> names_loop i sz =
     map (\<lambda>j. NamesAdd (''node('' @ string_of_nat j @ '')'') j) [unat i..<unat sz]"
proof (induction i sz rule: names_loop.induct)
  case (1 i sz)
  show ?case
  proof (cases "i < sz")
    case True
    then have s: "unat (i + 1) = Suc (unat i)" by (rule unat_succ)
    from True have l: "unat i < unat sz" by (simp add: word_less_nat_alt)
    then have le: "i + 1 \<le> sz" using s by (simp add: word_le_nat_alt)
    show ?thesis
      using "1.IH" [OF True le] True l s
      by (subst names_loop.simps) (simp add: upt_conv_Cons)
  next
    case False
    with "1.prems" have "i = sz" by simp
    then show ?thesis by (subst names_loop.simps) simp
  qed
qed

lemma numbers_init_closed:
  "length ns = unat (sz - 2) \<Longrightarrow> i \<le> sz - 2 \<Longrightarrow>
   numbers_init i c ns sz =
     Inr (take (unat i) ns @
          map (\<lambda>j. word_of_int (c + int (j - unat i)
                 + (if unat i \<le> unat (sz div 2) \<and> unat (sz div 2) \<le> j then 1 else 0)))
            [unat i..<unat (sz - 2)])"
proof (induction i c ns sz rule: numbers_init.induct)
  case (1 i c ns sz)
  show ?case
  proof (cases "i < sz - 2")
    case True
    then have s: "unat (i + 1) = Suc (unat i)" by (rule unat_succ)
    from True have l: "unat i < unat (sz - 2)" by (simp add: word_less_nat_alt)
    then have le: "i + 1 \<le> sz - 2" using s by (simp add: word_le_nat_alt)
    define c' where "c' = (if i = sz div 2 then c + 1 else c)"
    have e: "(i = sz div 2) = (unat i = unat (sz div 2))" by (simp add: word_unat_eq_iff)
    have li: "unat i < length ns" using l "1.prems" by simp
    have ih: "numbers_init (i + 1) (c' + 1) (ns[unat i := word_of_int c']) sz =
      Inr (take (unat (i + 1)) (ns[unat i := word_of_int c']) @
          map (\<lambda>j. word_of_int (c' + 1 + int (j - unat (i + 1))
                 + (if unat (i + 1) \<le> unat (sz div 2) \<and> unat (sz div 2) \<le> j then 1 else 0)))
            [unat (i + 1)..<unat (sz - 2)])"
      using "1.IH" [OF True c'_def li] "1.prems" le by simp
    have t: "take (Suc (unat i)) (ns[unat i := word_of_int c']) = take (unat i) ns @ [word_of_int c']"
      using li by (simp add: take_Suc_conv_app_nth)
    have m: "map (\<lambda>j. word_of_int (c' + 1 + int (j - Suc (unat i))
                 + (if Suc (unat i) \<le> unat (sz div 2) \<and> unat (sz div 2) \<le> j then 1 else 0)))
            [Suc (unat i)..<unat (sz - 2)]
          = map (\<lambda>j. (word_of_int (c + int (j - unat i)
                 + (if unat i \<le> unat (sz div 2) \<and> unat (sz div 2) \<le> j then 1 else 0)) :: uint32_t))
            [Suc (unat i)..<unat (sz - 2)]"
      by (rule map_cong [OF refl]) (auto simp: c'_def e intro!: arg_cong [where f = word_of_int])
    have h: "(word_of_int c' :: uint32_t) = word_of_int (c + int (unat i - unat i)
                 + (if unat i \<le> unat (sz div 2) \<and> unat (sz div 2) \<le> unat i then 1 else 0))"
      by (auto simp: c'_def e)
    show ?thesis
      apply (subst numbers_init.simps)
      using True li ih
      apply (simp add: Let_def c'_def [symmetric] s t m upt_conv_Cons [OF l])
      apply (simp add: h)
      done
  next
    case False
    with "1.prems" have "i = sz - 2" by simp
    then show ?thesis using "1.prems" by (subst numbers_init.simps) simp
  qed
qed


lemma sint_small: "unat (w::uint32_t) < 2147483648 \<Longrightarrow> sint w = int (unat w)"
proof -
  assume a: "unat w < 2147483648"
  have "uint w = int (unat w)" by (rule uint_nat)
  with a have b: "uint w < 2147483648" by linarith
  have c: "- (2 ^ 31) \<le> uint w" by (rule order_trans [of _ 0]) simp_all
  have d: "uint w < 2 ^ 31" using b by simp
  have "sint w = signed_take_bit 31 (uint w)" by (simp add: sint_uint)
  also have "\<dots> = uint w"
    using c d by (rule signed_take_bit_int_eq_self)
  finally show ?thesis by simp
qed

lemma shuffle_index:
  assumes "0 < (m::uint32_t)"
  shows "0 \<le> sint ((word_of_nat (r mod (RAND_MAX + 1)) :: uint32_t) mod m)
       \<and> nat (sint ((word_of_nat (r mod (RAND_MAX + 1)) :: uint32_t) mod m)) < unat m"
proof -
  define q where "q = r mod (RAND_MAX + 1)"
  let ?w = "(word_of_nat q :: uint32_t) mod m"
  have r: "q < 2147483648" by (simp add: RAND_MAX_def q_def)
  have "unat ?w \<le> unat (word_of_nat q :: uint32_t)"
    by (simp only: unat_mod mod_less_eq_dividend)
  also have "\<dots> \<le> q" by (simp only: unat_of_nat mod_less_eq_dividend)
  finally have "unat ?w < 2147483648" using r by linarith
  then have s: "sint ?w = int (unat ?w)" by (rule sint_small)
  have "?w < m" using assms by (rule word_mod_less_divisor)
  then have "unat ?w < unat m" by (simp only: word_less_nat_alt)
  with s show ?thesis unfolding q_def by simp
qed

lemma numbers_shuffle_ok:
  "length ns = unat (sz - 2) \<Longrightarrow>
   \<exists>ns'. numbers_shuffle i ns sz rs = Inr (ns', (fst rs, snd rs + (unat (sz - 2) - unat i)))
        \<and> set ns' = set ns \<and> length ns' = length ns"
proof (induction i ns sz rs rule: numbers_shuffle.induct)
  case (1 i ns sz rs)
  show ?case
  proof (cases "i < sz - 2")
    case True
    obtain f p where rs: "rs = (f, p)" by (cases rs)
    define r where "r = f p mod (RAND_MAX + 1)"
    define k where "k = sint ((word_of_nat r :: uint32_t) mod (sz - 2))"
    have s: "unat (i + 1) = Suc (unat i)" using True by (rule unat_succ)
    from True have l: "unat i < unat (sz - 2)" by (simp add: word_less_nat_alt)
    have pos: "0 < sz - 2" using True by unat_arith
    have k: "0 \<le> k \<and> nat k < unat (sz - 2)"
      unfolding k_def r_def using shuffle_index [OF pos] by simp
    have li: "unat i < length ns" using l "1.prems" by simp
    have lk: "nat k < length ns" using k "1.prems" by simp
    define ns2 where "ns2 = ns[unat i := ns ! nat k, nat k := ns ! unat i]"
    have len: "length ns2 = unat (sz - 2)" using "1.prems" by (simp add: ns2_def)
    have st: "set ns2 = set ns" unfolding ns2_def using li lk by (rule set_swap)
    have rd: "rand rs = (r, (f, Suc p))" by (simp add: rs r_def)
    have "\<exists>ns'. numbers_shuffle (i + 1) ns2 sz (f, Suc p)
             = Inr (ns', (fst (f, Suc p), snd (f, Suc p) + (unat (sz - 2) - unat (i + 1))))
           \<and> set ns' = set ns2 \<and> length ns' = length ns2"
      using "1.IH" [OF True refl rd [symmetric] k_def _ _ refl refl refl] li k lk len
      by (simp add: ns2_def)
    then obtain ns' where n: "numbers_shuffle (i + 1) ns2 sz (f, Suc p)
             = Inr (ns', (f, Suc p + (unat (sz - 2) - unat (i + 1))))"
           "set ns' = set ns2" "length ns' = length ns2" by auto
    have u: "numbers_shuffle i ns sz rs = numbers_shuffle (i + 1) ns2 sz (f, Suc p)"
      apply (subst numbers_shuffle.simps)
      using True li k lk
      apply (simp add: rd Let_def k_def [symmetric] ns2_def del: rand.simps)
      done
    have a: "Suc p + (unat (sz - 2) - unat (i + 1)) = p + (unat (sz - 2) - unat i)"
      using l s by simp
    have fin: "numbers_shuffle i ns sz rs = Inr (ns', (fst rs, snd rs + (unat (sz - 2) - unat i)))"
      unfolding u n(1) using a by (simp add: rs)
    show ?thesis
      using fin n(2,3) st len "1.prems" by auto
  next
    case False
    then have "unat (sz - 2) - unat i = 0" by (simp add: word_less_nat_alt)
    then show ?thesis using False by (subst numbers_shuffle.simps) simp
  qed
qed

lemma relocate_loop_step:
  "i < nodeRM ex \<Longrightarrow> unat i < length ns \<Longrightarrow> unat (ns ! unat i) < nodes ex \<Longrightarrow>
   relocate_loop ord i ex ns (f, q) =
     (case relocate_loop ord (i + 1) ex ns (f, q + 3) of
        Inl e \<Rightarrow> Inl e
      | Inr (cs, rs') \<Rightarrow>
          Inr ((case arguments (ord (unat i)) (draw (f, q) 0, draw (f, q) 1, draw (f, q) 2) of
                  (x, y, z) \<Rightarrow>
                    Schedule_SetPosition (Seconds (Quot (Val (duration ex)) (Val 2)))
                      (unat (ns ! unat i))
                      (real (x mod 10000)) (real (y mod 10000)) (real (z mod 10000))) # cs, rs'))"
  by (subst relocate_loop.simps)
    (simp add: Let_def draw_def numeral_3_eq_3 numeral_2_eq_2 split: sum.splits prod.splits)

lemma relocate_loop_closed:
  "unat (nodeRM ex) - unat i = k \<Longrightarrow> i \<le> nodeRM ex \<Longrightarrow>
   \<forall>j. unat i \<le> j \<and> j < unat (nodeRM ex) \<longrightarrow> j < length ns \<and> unat (ns ! j) < nodes ex \<Longrightarrow>
   relocate_loop ord i ex ns (f, p + 3 * unat i) =
     Inr (map (relocation ord ex ns (f, p)) [unat i..<unat (nodeRM ex)], (f, p + 3 * unat (nodeRM ex)))"
proof (induction k arbitrary: i)
  case 0
  then have "i = nodeRM ex" by (simp add: word_le_nat_alt word_unat_eq_iff)
  then show ?case by (subst relocate_loop.simps) simp
next
  case (Suc k)
  then have l: "unat i < unat (nodeRM ex)" by simp
  then have True: "i < nodeRM ex" by (simp add: word_less_nat_alt)
  have s: "unat (i + 1) = Suc (unat i)" using True by (rule unat_succ)
  have le: "i + 1 \<le> nodeRM ex" using l s by (simp add: word_le_nat_alt)
  have li: "unat i < length ns" and ln: "unat (ns ! unat i) < nodes ex"
    using Suc.prems(3) l by auto
  have all: "\<forall>j. unat (i + 1) \<le> j \<and> j < unat (nodeRM ex) \<longrightarrow> j < length ns \<and> unat (ns ! j) < nodes ex"
    using Suc.prems(3) s by auto
  have k: "unat (nodeRM ex) - unat (i + 1) = k" using Suc.prems(1) s by simp
  have q: "p + 3 * unat i + 3 = p + 3 * unat (i + 1)" using s by simp
  have ih: "relocate_loop ord (i + 1) ex ns (f, p + 3 * unat i + 3) =
     Inr (map (relocation ord ex ns (f, p)) [unat (i + 1)..<unat (nodeRM ex)], (f, p + 3 * unat (nodeRM ex)))"
    unfolding q using k le all by (rule Suc.IH)
  have h: "(case arguments (ord (unat i)) (draw (f, p + 3 * unat i) 0, draw (f, p + 3 * unat i) 1,
                                draw (f, p + 3 * unat i) 2) of
              (x, y, z) \<Rightarrow>
                Schedule_SetPosition (Seconds (Quot (Val (duration ex)) (Val 2)))
                  (unat (ns ! unat i))
                  (real (x mod 10000)) (real (y mod 10000)) (real (z mod 10000)))
           = relocation ord ex ns (f, p) (unat i)"
    by (simp add: relocation_def draw_def add.assoc)
  show ?case
    unfolding relocate_loop_step [OF True li ln] ih h
    by (simp add: s upt_conv_Cons [OF l])
qed

lemma relocate_loop_fault:
  "unat (nodeRM ex) - unat i = k \<Longrightarrow>
   \<exists>j. unat i \<le> j \<and> j < unat (nodeRM ex) \<and> \<not> (j < length ns \<and> unat (ns ! j) < nodes ex) \<Longrightarrow>
   isl (relocate_loop ord i ex ns rs)"
proof (induction k arbitrary: i rs)
  case 0
  then show ?case by auto
next
  case (Suc k)
  from Suc.prems obtain j where j: "unat i \<le> j" "j < unat (nodeRM ex)"
    "\<not> (j < length ns \<and> unat (ns ! j) < nodes ex)" by blast
  then have True: "i < nodeRM ex" by (simp add: word_less_nat_alt)
  have s: "unat (i + 1) = Suc (unat i)" using True by (rule unat_succ)
  have k: "unat (nodeRM ex) - unat (i + 1) = k" using Suc.prems(1) s by simp
  obtain f q where rs: "rs = (f, q)" by (cases rs)
  show ?case
  proof (cases "unat i < length ns \<and> unat (ns ! unat i) < nodes ex")
    case False
    then show ?thesis using True by (subst relocate_loop.simps) (auto simp: Let_def)
  next
    case ok: True
    then have "j \<noteq> unat i" using j by auto
    with j s have ex: "\<exists>j. unat (i + 1) \<le> j \<and> j < unat (nodeRM ex)
         \<and> \<not> (j < length ns \<and> unat (ns ! j) < nodes ex)"
      by (intro exI [of _ j]) simp
    have ih: "isl (relocate_loop ord (i + 1) ex ns (f, q + 3))"
      using k ex by (rule Suc.IH)
    from ok have li: "unat i < length ns" and ln: "unat (ns ! unat i) < nodes ex" by auto
    show ?thesis
      unfolding rs relocate_loop_step [OF True li ln]
      using ih by (cases "relocate_loop ord (i + 1) ex ns (f, q + 3)") simp_all
  qed
qed

lemma numbers_init_start:
  "numbers_init 0 0 (replicate (unat (sz - 2)) 0) sz = Inr (init_list sz)"
proof -
  have "numbers_init 0 0 (replicate (unat (sz - 2)) 0) sz =
     Inr (take (unat (0::uint32_t)) (replicate (unat (sz - 2)) 0) @
          map (\<lambda>j. word_of_int (0 + int (j - unat (0::uint32_t))
                 + (if unat (0::uint32_t) \<le> unat (sz div 2) \<and> unat (sz div 2) \<le> j then 1 else 0)))
            [unat (0::uint32_t)..<unat (sz - 2)])"
    by (rule numbers_init_closed) simp_all
  also have "\<dots> = Inr (init_list sz)"
    by (simp add: init_list_def)
  finally show ?thesis .
qed

lemma length_init_list: "length (init_list sz) = unat (sz - 2)"
  by (simp add: init_list_def)

lemma unat_word_of_nat32: "v < 4294967296 \<Longrightarrow> unat (word_of_nat v :: uint32_t) = v"
  by (simp add: unat_of_nat)

lemma unat_lt32: "unat (w::uint32_t) < 4294967296"
  using unsigned_less [of w, where 'a = nat] by simp

lemma set_init_list:
  assumes "3 \<le> sz"
  shows "set (init_list sz) = {w. w \<le> sz - 2 \<and> w \<noteq> sz div 2}"
proof -
  define n where "n = unat sz"
  have n3: "3 \<le> n" using assms by (simp add: n_def word_le_nat_alt)
  have nlt: "n < 4294967296" unfolding n_def by (rule unat_lt32)
  have N: "unat (sz - 2) = n - 2"
    unfolding n_def using assms by (subst unat_sub) (simp_all add: word_le_nat_alt)
  have h: "unat (sz div 2) = n div 2" by (simp add: n_def unat_div)
  have le: "\<And>w. (w \<le> sz - 2) = (unat w \<le> n - 2)" by (simp add: word_le_nat_alt N)
  have ne: "\<And>w. (w = sz div 2) = (unat w = n div 2)" by (simp add: word_unat_eq_iff h)
  show ?thesis
  proof (intro set_eqI iffI)
    fix w assume "w \<in> set (init_list sz)"
    then obtain j where j: "j < n - 2"
      and w: "w = (if j < n div 2 then word_of_nat j else word_of_nat j + 1)"
      by (auto simp: init_list_def N h)
    have "unat w = (if j < n div 2 then j else j + 1)"
    proof (cases "j < n div 2")
      case True
      then show ?thesis using w j nlt by (simp add: unat_word_of_nat32)
    next
      case False
      have "word_of_nat j + 1 = (word_of_nat (j + 1) :: uint32_t)" by simp
      then show ?thesis using False w j nlt by (simp only: if_False unat_word_of_nat32)
    qed
    then show "w \<in> {w. w \<le> sz - 2 \<and> w \<noteq> sz div 2}"
      using j by (auto simp: le ne)
  next
    fix w assume "w \<in> {w. w \<le> sz - 2 \<and> w \<noteq> sz div 2}"
    then have a: "unat w \<le> n - 2" "unat w \<noteq> n div 2" by (simp_all add: le ne)
    show "w \<in> set (init_list sz)"
    proof (cases "unat w < n div 2")
      case True
      then have "unat w < n - 2" using n3 by linarith
      moreover have "w = word_of_nat (unat w)" by simp
      ultimately show ?thesis
        using True unfolding init_list_def N h
        by (intro image_eqI [where x = "unat w", THEN subst [OF set_map [symmetric], where P = "\<lambda>S. w \<in> S"]]) simp_all
    next
      case False
      with a have g: "n div 2 < unat w" by simp
      define j where "j = unat w - 1"
      have j: "j < n - 2" "\<not> j < n div 2" "unat w = j + 1" using g a by (simp_all add: j_def)
      have "w = word_of_nat (unat w)" by simp
      also have "\<dots> = word_of_nat j + 1" unfolding j(3) by simp
      finally have "w = (if j < n div 2 then word_of_nat j else word_of_nat j + 1)"
        using j(2) by simp
      then show ?thesis
        using j(1) unfolding init_list_def N h
        by (intro image_eqI [where x = j, THEN subst [OF set_map [symmetric], where P = "\<lambda>S. w \<in> S"]]) simp_all
    qed
  qed
qed

lemma init_list_one: "w \<in> set (init_list 1) \<Longrightarrow> 1 \<le> unat w"
proof -
  assume "w \<in> set (init_list 1)"
  then obtain j where j: "j < unat (1 - 2 :: uint32_t)" and w: "w = word_of_nat j + 1"
    by (auto simp: init_list_def)
  have "unat (1 - 2 :: uint32_t) < 4294967296" by (rule unat_lt32)
  with j have "j + 1 < 4294967296" by linarith
  moreover have "w = word_of_nat (j + 1)" using w by simp
  ultimately have "unat w = j + 1" by (simp only: unat_word_of_nat32)
  then show ?thesis by simp
qed

lemma InstallApplications_same: "Dsdv_InstallApplications = Aodv_InstallApplications"
  by (intro ext) (simp only: Dsdv_InstallApplications_def Aodv_InstallApplications_def)

lemma InstallApplications_pre:
  assumes "1 \<le> size_m ex" "unat (size_m ex) \<le> nodes ex" "unat (size_m ex) \<le> interfaces ex"
  shows "\<exists>ns. set ns = set (init_list (size_m ex)) \<and> length ns = unat (size_m ex - 2) \<and>
     numbers_shuffle 0 (init_list (size_m ex)) (size_m ex) rs
       = Inr (ns, (fst rs, snd rs + unat (size_m ex - 2))) \<and>
     Aodv_InstallApplications ord ex rs =
       (case relocate_loop ord 0 ex ns (fst rs, snd rs + unat (size_m ex - 2)) of
          Inl e \<Rightarrow> Inl e
        | Inr (cs, rs'') \<Rightarrow>
            Inr ([V4PingHelper_GetAddress (unat (size_m ex - 1)),
                  PingSetAttribute ''Verbose'' (BooleanValue True),
                  PingInstall (unat (size_m ex div 2)),
                  AppStart (Seconds (Val 0)),
                  AppStop (TimeMinus (Seconds (Val (duration ex))) (Seconds (Val 0.001)))]
                 @ cs, rs''))"
proof -
  have p: "0 < unat (size_m ex)" using assms(1) by (simp add: word_le_nat_alt)
  have "unat (size_m ex - 1) = unat (size_m ex) - 1"
    using assms(1) by (subst unat_sub) simp_all
  then have a: "unat (size_m ex - 1) < interfaces ex" using p assms(3) by simp
  have "unat (size_m ex div 2) = unat (size_m ex) div 2" by (simp add: unat_div)
  then have b: "unat (size_m ex div 2) < nodes ex" using p assms(2) by simp
  obtain ns where ns: "numbers_shuffle 0 (init_list (size_m ex)) (size_m ex) rs
       = Inr (ns, (fst rs, snd rs + (unat (size_m ex - 2) - unat (0::uint32_t))))"
       "set ns = set (init_list (size_m ex))" "length ns = length (init_list (size_m ex))"
    using numbers_shuffle_ok [where ns = "init_list (size_m ex)" and sz = "size_m ex"
        and i = 0 and rs = rs, OF length_init_list] by blast
  have c: "numbers_shuffle 0 (init_list (size_m ex)) (size_m ex) rs
       = Inr (ns, (fst rs, snd rs + unat (size_m ex - 2)))"
    using ns(1) by simp
  have "Aodv_InstallApplications ord ex rs =
       (case relocate_loop ord 0 ex ns (fst rs, snd rs + unat (size_m ex - 2)) of
          Inl e \<Rightarrow> Inl e
        | Inr (cs, rs'') \<Rightarrow>
            Inr ([V4PingHelper_GetAddress (unat (size_m ex - 1)),
                  PingSetAttribute ''Verbose'' (BooleanValue True),
                  PingInstall (unat (size_m ex div 2)),
                  AppStart (Seconds (Val 0)),
                  AppStop (TimeMinus (Seconds (Val (duration ex))) (Seconds (Val 0.001)))]
                 @ cs, rs''))"
    unfolding Aodv_InstallApplications_def using a b
    by (simp add: numbers_init_start c)
  then show ?thesis using ns(2,3) c by (auto simp: length_init_list)
qed

lemma InstallApplications_closed:
  assumes "3 \<le> size_m ex" "nodeRM ex \<le> size_m ex - 2"
    "unat (size_m ex) \<le> nodes ex" "unat (size_m ex) \<le> interfaces ex"
  shows "\<exists>ns. set ns = {w. w \<le> size_m ex - 2 \<and> w \<noteq> size_m ex div 2} \<and>
     length ns = unat (size_m ex - 2) \<and>
     numbers_shuffle 0 (init_list (size_m ex)) (size_m ex) rs
       = Inr (ns, (fst rs, snd rs + unat (size_m ex - 2))) \<and>
     Aodv_InstallApplications ord ex rs =
       Inr ([V4PingHelper_GetAddress (unat (size_m ex - 1)),
             PingSetAttribute ''Verbose'' (BooleanValue True),
             PingInstall (unat (size_m ex div 2)),
             AppStart (Seconds (Val 0)),
             AppStop (TimeMinus (Seconds (Val (duration ex))) (Seconds (Val 0.001)))]
            @ map (relocation ord ex ns (fst rs, snd rs + unat (size_m ex - 2))) [0..<unat (nodeRM ex)],
            (fst rs, snd rs + unat (size_m ex - 2) + 3 * unat (nodeRM ex)))"
proof -
  have one: "1 \<le> size_m ex" using assms(1) by (simp add: word_le_nat_alt)
  from InstallApplications_pre [OF one assms(3,4), where rs = rs and ord = ord]
  obtain ns where ns: "set ns = set (init_list (size_m ex))" "length ns = unat (size_m ex - 2)"
    "numbers_shuffle 0 (init_list (size_m ex)) (size_m ex) rs
       = Inr (ns, (fst rs, snd rs + unat (size_m ex - 2)))"
    "Aodv_InstallApplications ord ex rs =
       (case relocate_loop ord 0 ex ns (fst rs, snd rs + unat (size_m ex - 2)) of
          Inl e \<Rightarrow> Inl e
        | Inr (cs, rs'') \<Rightarrow>
            Inr ([V4PingHelper_GetAddress (unat (size_m ex - 1)),
                  PingSetAttribute ''Verbose'' (BooleanValue True),
                  PingInstall (unat (size_m ex div 2)),
                  AppStart (Seconds (Val 0)),
                  AppStop (TimeMinus (Seconds (Val (duration ex))) (Seconds (Val 0.001)))]
                 @ cs, rs''))"
    by blast
  have st: "set ns = {w. w \<le> size_m ex - 2 \<and> w \<noteq> size_m ex div 2}"
    using ns(1) set_init_list [OF assms(1)] by simp
  have two: "2 \<le> size_m ex" using assms(1) by (simp add: word_le_nat_alt)
  have N: "unat (size_m ex - 2) = unat (size_m ex) - 2"
    using two by (subst unat_sub) simp_all
  have rm: "unat (nodeRM ex) \<le> length ns" using assms(2) ns(2) by (simp add: word_le_nat_alt)
  have inr: "\<forall>j. unat (0::uint32_t) \<le> j \<and> j < unat (nodeRM ex)
       \<longrightarrow> j < length ns \<and> unat (ns ! j) < nodes ex"
  proof (intro allI impI)
    fix j assume "unat (0::uint32_t) \<le> j \<and> j < unat (nodeRM ex)"
    then have j: "j < length ns" using rm by simp
    then have "ns ! j \<in> set ns" by simp
    then have "ns ! j \<le> size_m ex - 2" using st by simp
    then have "unat (ns ! j) \<le> unat (size_m ex) - 2" by (simp add: word_le_nat_alt N)
    moreover have "3 \<le> unat (size_m ex)" using assms(1) by (simp add: word_le_nat_alt)
    ultimately have "unat (ns ! j) < nodes ex" using assms(3) by simp
    with j show "j < length ns \<and> unat (ns ! j) < nodes ex" by simp
  qed
  have "relocate_loop ord 0 ex ns (fst rs, snd rs + unat (size_m ex - 2) + 3 * unat (0::uint32_t)) =
     Inr (map (relocation ord ex ns (fst rs, snd rs + unat (size_m ex - 2)))
            [unat (0::uint32_t)..<unat (nodeRM ex)],
          (fst rs, snd rs + unat (size_m ex - 2) + 3 * unat (nodeRM ex)))"
    using refl _ inr by (rule relocate_loop_closed) simp
  then have "relocate_loop ord 0 ex ns (fst rs, snd rs + unat (size_m ex - 2)) =
     Inr (map (relocation ord ex ns (fst rs, snd rs + unat (size_m ex - 2))) [0..<unat (nodeRM ex)],
          (fst rs, snd rs + unat (size_m ex - 2) + 3 * unat (nodeRM ex)))"
    by simp
  then show ?thesis using st ns(2,3,4) by (intro exI [of _ ns]) simp
qed

lemma InstallApplications_fault_iff:
  assumes "nodes ex = unat (size_m ex)" "interfaces ex = unat (size_m ex)"
  shows "isl (Aodv_InstallApplications ord ex rs) \<longleftrightarrow>
     \<not> (1 \<le> size_m ex \<and> (nodeRM ex = 0 \<or> (3 \<le> size_m ex \<and> nodeRM ex \<le> size_m ex - 2)))"
proof (cases "1 \<le> size_m ex")
  case False
  then have z: "size_m ex = 0" by (simp add: word_le_nat_alt word_unat_eq_iff)
  have "\<not> unat (size_m ex - 1) < interfaces ex" using assms(2) z by simp
  then have "isl (Aodv_InstallApplications ord ex rs)"
    by (simp add: Aodv_InstallApplications_def)
  with False show ?thesis by simp
next
  case one: True
  have ge: "unat (size_m ex) \<le> nodes ex" "unat (size_m ex) \<le> interfaces ex"
    using assms by simp_all
  from InstallApplications_pre [OF one ge, where rs = rs and ord = ord]
  obtain ns where ns: "set ns = set (init_list (size_m ex))" "length ns = unat (size_m ex - 2)"
    "Aodv_InstallApplications ord ex rs =
       (case relocate_loop ord 0 ex ns (fst rs, snd rs + unat (size_m ex - 2)) of
          Inl e \<Rightarrow> Inl e
        | Inr (cs, rs'') \<Rightarrow>
            Inr ([V4PingHelper_GetAddress (unat (size_m ex - 1)),
                  PingSetAttribute ''Verbose'' (BooleanValue True),
                  PingInstall (unat (size_m ex div 2)),
                  AppStart (Seconds (Val 0)),
                  AppStop (TimeMinus (Seconds (Val (duration ex))) (Seconds (Val 0.001)))]
                 @ cs, rs''))"
    by blast
  define rs1 where "rs1 = (fst rs, snd rs + unat (size_m ex - 2))"
  have iff: "isl (Aodv_InstallApplications ord ex rs) = isl (relocate_loop ord 0 ex ns rs1)"
    unfolding ns(3) rs1_def by (simp split: sum.splits)
  consider (zero) "nodeRM ex = 0"
    | (good) "nodeRM ex \<noteq> 0" "3 \<le> size_m ex" "nodeRM ex \<le> size_m ex - 2"
    | (bad) "nodeRM ex \<noteq> 0" "\<not> (3 \<le> size_m ex \<and> nodeRM ex \<le> size_m ex - 2)"
    by blast
  then show ?thesis
  proof cases
    case zero
    then have "relocate_loop ord 0 ex ns rs1 = Inr ([], rs1)"
      by (subst relocate_loop.simps) simp
    then show ?thesis using zero one iff by simp
  next
    case good
    from InstallApplications_closed [OF good(2,3) ge, where rs = rs and ord = ord]
    have "\<exists>r. Aodv_InstallApplications ord ex rs = Inr r" by (elim exE conjE) (rule exI)
    then have "\<not> isl (Aodv_InstallApplications ord ex rs)" by auto
    then show ?thesis using good one by simp
  next
    case bad
    have rm: "0 < unat (nodeRM ex)" using bad(1) by (simp add: unat_gt_0)
    have "\<exists>j. unat (0::uint32_t) \<le> j \<and> j < unat (nodeRM ex)
         \<and> \<not> (j < length ns \<and> unat (ns ! j) < nodes ex)"
    proof (cases "unat (nodeRM ex) \<le> length ns")
      case False
      then show ?thesis by (intro exI [of _ "length ns"]) simp
    next
      case True
      then have len: "0 < length ns" using rm by linarith
      have le: "nodeRM ex \<le> size_m ex - 2" using True ns(2) by (simp add: word_le_nat_alt)
      with bad(2) have "\<not> 3 \<le> size_m ex" by simp
      then have lt3: "unat (size_m ex) < 3" by (simp add: word_le_nat_alt)
      have "size_m ex \<noteq> 2" using len ns(2) by auto
      then have "unat (size_m ex) \<noteq> 2" by (simp add: word_unat_eq_iff)
      moreover have "1 \<le> unat (size_m ex)" using one by (simp add: word_le_nat_alt)
      ultimately have "unat (size_m ex) = 1" using lt3 by linarith
      then have s1: "size_m ex = 1" by (simp add: word_unat_eq_iff)
      have "ns ! 0 \<in> set (init_list 1)" using len ns(1) s1 by (metis nth_mem)
      then have "1 \<le> unat (ns ! 0)" by (rule init_list_one)
      then have "\<not> unat (ns ! 0) < nodes ex" using assms(1) s1 by simp
      then show ?thesis using rm by (intro exI [of _ 0]) simp
    qed
    with refl have "isl (relocate_loop ord 0 ex ns rs1)" by (rule relocate_loop_fault)
    then show ?thesis using bad one iff by simp
  qed
qed

lemma Dsdv_cmd_eq: "Dsdv_cmd = Aodv_cmd"
  by (simp add: Dsdv_cmd_def Aodv_cmd_def)

lemma find_item_cmd:
  "find_item Aodv_cmd n =
     (if n = ''pcap'' then Some M_pcap else if n = ''size'' then Some M_size
      else if n = ''time'' then Some M_duration else if n = ''fail'' then Some M_nodeRM
      else None)"
  by (simp add: Aodv_cmd_def cmd_AddValue_def)

lemma assign_other_pcap: "m \<noteq> M_pcap \<Longrightarrow> pcap (assign m v ex) = pcap ex"
  by (cases m; cases v) simp_all

lemma assign_other_size: "m \<noteq> M_size \<Longrightarrow> size_m (assign m v ex) = size_m ex"
  by (cases m; cases v) simp_all

lemma assign_other_duration: "m \<noteq> M_duration \<Longrightarrow> duration (assign m v ex) = duration ex"
  by (cases m; cases v) simp_all

lemma assign_other_nodeRM: "m \<noteq> M_nodeRM \<Longrightarrow> nodeRM (assign m v ex) = nodeRM ex"
  by (cases m; cases v) simp_all

lemmas assign_other = assign_other_pcap assign_other_size assign_other_duration assign_other_nodeRM

lemma handle_other:
  "''pcap'' \<noteq> fst a \<Longrightarrow> pcap (HandleArgument Aodv_cmd a ex) = pcap ex"
  "''size'' \<noteq> fst a \<Longrightarrow> size_m (HandleArgument Aodv_cmd a ex) = size_m ex"
  "''time'' \<noteq> fst a \<Longrightarrow> duration (HandleArgument Aodv_cmd a ex) = duration ex"
  "''fail'' \<noteq> fst a \<Longrightarrow> nodeRM (HandleArgument Aodv_cmd a ex) = nodeRM ex"
  by (auto simp: HandleArgument_def find_item_cmd assign_other)

lemma handle_this:
  "pcap (HandleArgument Aodv_cmd (''pcap'', BoolV b) ex) = b"
  "size_m (HandleArgument Aodv_cmd (''size'', UintV s) ex) = s"
  "duration (HandleArgument Aodv_cmd (''time'', DoubleV d) ex) = d"
  "nodeRM (HandleArgument Aodv_cmd (''fail'', UintV r) ex) = r"
  by (simp_all add: HandleArgument_def find_item_cmd)

lemma parse_keep_pcap:
  "''pcap'' \<notin> fst ` set argv \<Longrightarrow> pcap (cmd_Parse Aodv_cmd argv ex) = pcap ex"
  by (induction argv arbitrary: ex) (simp_all add: handle_other)

lemma parse_keep_size:
  "''size'' \<notin> fst ` set argv \<Longrightarrow> size_m (cmd_Parse Aodv_cmd argv ex) = size_m ex"
  by (induction argv arbitrary: ex) (simp_all add: handle_other)

lemma parse_keep_time:
  "''time'' \<notin> fst ` set argv \<Longrightarrow> duration (cmd_Parse Aodv_cmd argv ex) = duration ex"
  by (induction argv arbitrary: ex) (simp_all add: handle_other)

lemma parse_keep_fail:
  "''fail'' \<notin> fst ` set argv \<Longrightarrow> nodeRM (cmd_Parse Aodv_cmd argv ex) = nodeRM ex"
  by (induction argv arbitrary: ex) (simp_all add: handle_other)

lemmas parse_keep = parse_keep_pcap parse_keep_size parse_keep_time parse_keep_fail

lemma last_value_Cons:
  "map_of (rev (a # args)) n = Some v \<Longrightarrow>
   map_of (rev args) n = Some v \<or> (n \<notin> fst ` set args \<and> a = (n, v))"
  by (cases a) (auto simp: map_add_def map_of_eq_None_iff split: option.splits if_splits)

lemma parse_pcap:
  "map_of (rev argv) ''pcap'' = Some (BoolV b) \<Longrightarrow> pcap (cmd_Parse Aodv_cmd argv ex) = b"
proof (induction argv arbitrary: ex)
  case Nil
  then show ?case by simp
next
  case (Cons a args)
  from last_value_Cons [OF Cons.prems] show ?case
    using Cons.IH by (auto simp: parse_keep handle_this)
qed

lemma parse_size:
  "map_of (rev argv) ''size'' = Some (UintV s) \<Longrightarrow> size_m (cmd_Parse Aodv_cmd argv ex) = s"
proof (induction argv arbitrary: ex)
  case Nil
  then show ?case by simp
next
  case (Cons a args)
  from last_value_Cons [OF Cons.prems] show ?case
    using Cons.IH by (auto simp: parse_keep handle_this)
qed

lemma parse_time:
  "map_of (rev argv) ''time'' = Some (DoubleV d) \<Longrightarrow> duration (cmd_Parse Aodv_cmd argv ex) = d"
proof (induction argv arbitrary: ex)
  case Nil
  then show ?case by simp
next
  case (Cons a args)
  from last_value_Cons [OF Cons.prems] show ?case
    using Cons.IH by (auto simp: parse_keep handle_this)
qed

lemma parse_fail:
  "map_of (rev argv) ''fail'' = Some (UintV r) \<Longrightarrow> nodeRM (cmd_Parse Aodv_cmd argv ex) = r"
proof (induction argv arbitrary: ex)
  case Nil
  then show ?case by simp
next
  case (Cons a args)
  from last_value_Cons [OF Cons.prems] show ?case
    using Cons.IH by (auto simp: parse_keep handle_this)
qed

lemma registered_Configure:
  "registered (fst (snd (Aodv_Configure argv ex))) =
     [(''pcap'', M_pcap), (''size'', M_size), (''time'', M_duration), (''fail'', M_nodeRM)]"
  by (simp add: Aodv_Configure_def Let_def registered_def cmd_calls_def Aodv_cmd_def
      cmd_AddValue_def)

lemma Configure_same: "Dsdv_Configure = Aodv_Configure"
  by (intro ext) (simp add: Dsdv_Configure_def Aodv_Configure_def Dsdv_cmd_eq)

lemma Configure_object: "snd (snd (Aodv_Configure argv ex)) = cmd_Parse Aodv_cmd argv ex"
  by (simp add: Aodv_Configure_def Let_def)

lemma CreateNodes_same: "Dsdv_CreateNodes = Aodv_CreateNodes"
  by (intro ext) (simp only: Dsdv_CreateNodes_def Aodv_CreateNodes_def)

lemma CreateNodes_calls:
  "fst (Aodv_CreateNodes ex) =
     [Cout (''Creating '' @ string_of_nat (unat (size_m ex)) @ '' nodes ''),
      Cout ''Nodes will be 175m apart.'',
      NodesCreate (size_m ex)]
     @ map (\<lambda>i. NamesAdd (''node('' @ string_of_nat i @ '')'') i) [0..<unat (size_m ex)]
     @ [SetPositionAllocator ''ns3::RandomDiscPositionAllocator''
          [(''X'', StringValue ''175.0''),
           (''Y'', StringValue ''175.0''),
           (''Rho'', StringValue ''ns3::UniformRandomVariable[Min=0|Max=125]'')],
        SetMobilityModel ''ns3::ConstantPositionMobilityModel'',
        MobilityInstall (nodes ex + unat (size_m ex))]"
proof -
  have "names_loop 0 (size_m ex) =
      map (\<lambda>j. NamesAdd (''node('' @ string_of_nat j @ '')'') j)
        [unat (0::uint32_t)..<unat (size_m ex)]"
    by (rule names_loop_map) simp
  then show ?thesis by (simp add: Aodv_CreateNodes_def Let_def)
qed

lemma CreateNodes_object:
  "snd (Aodv_CreateNodes ex) = ex\<lparr>nodes := nodes ex + unat (size_m ex)\<rparr>"
  by (simp add: Aodv_CreateNodes_def Let_def)

lemma string_of_nat_examples:
  "string_of_nat 0 = ''0''" "string_of_nat 7 = ''7''" "string_of_nat 12 = ''12''"
  "string_of_nat 4294967295 = ''4294967295''"
  by (simp_all add: string_of_nat.simps char_of_def bit_0)

lemma to_dsdv_names: "map to_dsdv (names_loop 0 sz) = names_loop 0 sz"
proof -
  have "names_loop 0 sz =
      map (\<lambda>j. NamesAdd (''node('' @ string_of_nat j @ '')'') j) [unat (0::uint32_t)..<unat sz]"
    by (rule names_loop_map) simp
  then show ?thesis by (simp add: to_dsdv_def)
qed

lemma to_dsdv_CreateNodes: "map to_dsdv (fst (Aodv_CreateNodes ex)) = fst (Aodv_CreateNodes ex)"
  by (simp add: Aodv_CreateNodes_def Let_def to_dsdv_names) (simp add: to_dsdv_def)

lemma to_dsdv_CreateDevices:
  "Dsdv_CreateDevices ex = (map to_dsdv (fst (Aodv_CreateDevices ex)), snd (Aodv_CreateDevices ex))"
  by (simp add: Dsdv_CreateDevices_def Aodv_CreateDevices_def to_dsdv_def dsdv_name_def)

lemma to_dsdv_InstallInternetStack:
  "Dsdv_InstallInternetStack ex =
     (map to_dsdv (fst (Aodv_InstallInternetStack ex)), snd (Aodv_InstallInternetStack ex))"
  by (simp add: Dsdv_InstallInternetStack_def Aodv_InstallInternetStack_def to_dsdv_def
      dsdv_name_def)

lemma to_dsdv_simps:
  "to_dsdv (Schedule_SetPosition t n x y z) = Schedule_SetPosition t n x y z"
  "to_dsdv (V4PingHelper_GetAddress n) = V4PingHelper_GetAddress n"
  "to_dsdv (PingSetAttribute a v) = PingSetAttribute a v"
  "to_dsdv (PingInstall n) = PingInstall n"
  "to_dsdv (AppStart t) = AppStart t"
  "to_dsdv (AppStop t) = AppStop t"
  by (simp_all add: to_dsdv_def)

lemma to_dsdv_relocate:
  "unat (nodeRM ex) - unat i = k \<Longrightarrow> relocate_loop ord i ex ns rs = Inr (cs, rs') \<Longrightarrow>
   map to_dsdv cs = cs"
proof (induction k arbitrary: i rs cs rs')
  case 0
  then have "\<not> i < nodeRM ex" by (simp add: word_less_nat_alt)
  then have "relocate_loop ord i ex ns rs = Inr ([], rs)" by (subst relocate_loop.simps) simp
  with "0.prems"(2) show ?case by simp
next
  case (Suc k)
  then have l: "unat i < unat (nodeRM ex)" by simp
  then have True: "i < nodeRM ex" by (simp add: word_less_nat_alt)
  have s: "unat (i + 1) = Suc (unat i)" using True by (rule unat_succ)
  have k: "unat (nodeRM ex) - unat (i + 1) = k" using Suc.prems(1) s by simp
  obtain f q where rs: "rs = (f, q)" by (cases rs)
  have ok: "unat i < length ns \<and> unat (ns ! unat i) < nodes ex"
  proof (rule ccontr)
    assume "\<not> (unat i < length ns \<and> unat (ns ! unat i) < nodes ex)"
    with l have "\<exists>j. unat i \<le> j \<and> j < unat (nodeRM ex)
        \<and> \<not> (j < length ns \<and> unat (ns ! j) < nodes ex)"
      by (intro exI [of _ "unat i"]) simp
    with refl have "isl (relocate_loop ord i ex ns rs)" by (rule relocate_loop_fault)
    with Suc.prems(2) show False by simp
  qed
  then have li: "unat i < length ns" and ln: "unat (ns ! unat i) < nodes ex" by simp_all
  note step = relocate_loop_step [OF True li ln, where f = f and q = q and ord = ord]
  show ?case
  proof (cases "relocate_loop ord (i + 1) ex ns (f, q + 3)")
    case (Inl e)
    with step Suc.prems(2) show ?thesis by (simp add: rs)
  next
    case (Inr r)
    obtain cs1 rs1 where r: "r = (cs1, rs1)" by (cases r)
    have "map to_dsdv cs1 = cs1" using k Inr [unfolded r] by (rule Suc.IH)
    moreover have "\<exists>t n x y z. cs = Schedule_SetPosition t n x y z # cs1"
      using step Suc.prems(2) Inr by (auto simp: rs r split: prod.splits)
    ultimately show ?thesis by (auto simp: to_dsdv_simps)
  qed
qed

lemma to_dsdv_InstallApplications:
  "Aodv_InstallApplications ord ex rs = Inr (cs, rs') \<Longrightarrow> map to_dsdv cs = cs"
  unfolding Aodv_InstallApplications_def
  by (auto split: if_splits sum.splits simp: to_dsdv_simps dest!: to_dsdv_relocate [OF refl])

lemma CreateDevices_same_object: "snd (Dsdv_CreateDevices ex) = snd (Aodv_CreateDevices ex)"
  by (simp add: Dsdv_CreateDevices_def Aodv_CreateDevices_def)

lemma setup_object:
  "snd (Aodv_InstallInternetStack (snd (Aodv_CreateDevices (snd (Aodv_CreateNodes ex)))))
     = after_setup ex"
  by (simp only: after_setup_def)

lemma Aodv_Run_unfold:
  "Aodv_Run ord ex rs =
     (case Aodv_InstallApplications ord (after_setup ex) rs of
        Inl e \<Rightarrow> Inl e
      | Inr (c4, rs') \<Rightarrow>
          Inr (fst (Aodv_CreateNodes ex)
               @ fst (Aodv_CreateDevices (snd (Aodv_CreateNodes ex)))
               @ fst (Aodv_InstallInternetStack (snd (Aodv_CreateDevices (snd (Aodv_CreateNodes ex)))))
               @ c4
               @ [Cout ''Starting simulation'',
                  SimulatorStop (Seconds (Val (duration ex))),
                  SimulatorRun,
                  SimulatorDestroy],
               after_setup ex, rs'))"
proof -
  have d: "duration (after_setup ex) = duration ex" by (simp add: after_setup_record)
  show ?thesis
  proof (cases "Aodv_InstallApplications ord (after_setup ex) rs")
    case (Inl e)
    then show ?thesis
      unfolding Aodv_Run_def by (simp add: split_beta Let_def setup_object)
  next
    case (Inr r)
    obtain c4 rs' where r: "r = (c4, rs')" by (cases r)
    show ?thesis
      unfolding Aodv_Run_def by (simp add: split_beta Let_def setup_object Inr r d)
  qed
qed

lemma Dsdv_Run_unfold:
  "Dsdv_Run ord ex rs =
     (case Aodv_InstallApplications ord (after_setup ex) rs of
        Inl e \<Rightarrow> Inl e
      | Inr (c4, rs') \<Rightarrow>
          Inr (map to_dsdv
                (fst (Aodv_CreateNodes ex)
                 @ fst (Aodv_CreateDevices (snd (Aodv_CreateNodes ex)))
                 @ fst (Aodv_InstallInternetStack (snd (Aodv_CreateDevices (snd (Aodv_CreateNodes ex)))))
                 @ c4
                 @ [Cout ''Starting simulation'',
                    SimulatorStop (Seconds (Val (duration ex))),
                    SimulatorRun,
                    SimulatorDestroy]),
               after_setup ex, rs'))"
proof -
  have d: "duration (after_setup ex) = duration ex" by (simp add: after_setup_record)
  have e: "to_dsdv (Cout ''Starting simulation'') = Cout ''Starting simulation''"
    "to_dsdv (SimulatorStop (Seconds (Val (duration ex)))) = SimulatorStop (Seconds (Val (duration ex)))"
    "to_dsdv SimulatorRun = SimulatorRun" "to_dsdv SimulatorDestroy = SimulatorDestroy"
    by (simp_all add: to_dsdv_def)
  show ?thesis
  proof (cases "Aodv_InstallApplications ord (after_setup ex) rs")
    case (Inl e)
    then show ?thesis
      unfolding Dsdv_Run_def
      by (simp add: split_beta Let_def CreateNodes_same to_dsdv_CreateDevices
          to_dsdv_InstallInternetStack InstallApplications_same setup_object)
  next
    case (Inr r)
    obtain c4 rs' where r: "r = (c4, rs')" by (cases r)
    have m: "map to_dsdv c4 = c4" using Inr [unfolded r] by (rule to_dsdv_InstallApplications)
    show ?thesis
      unfolding Dsdv_Run_def
      by (simp add: split_beta Let_def CreateNodes_same to_dsdv_CreateDevices
          to_dsdv_InstallInternetStack InstallApplications_same setup_object Inr r d e m
          to_dsdv_CreateNodes)
  qed
qed

lemma Configure_true: "fst (Aodv_Configure argv ex) = True"
  by (simp add: Aodv_Configure_def Let_def)

lemma main_not_fatal: "\<not> fatal (main ord argv select rs)"
  by (simp add: main_def main_with_def fatal_def Let_def split_beta Configure_true Configure_same
      split: sum.splits)

lemma numbers_shuffle_distinct:
  "length ns = unat (sz - 2) \<Longrightarrow> numbers_shuffle i ns sz rs = Inr (ns', rs') \<Longrightarrow>
   distinct ns' = distinct ns"
proof (induction i ns sz rs rule: numbers_shuffle.induct)
  case (1 i ns sz rs)
  show ?case
  proof (cases "i < sz - 2")
    case True
    obtain f p where rs: "rs = (f, p)" by (cases rs)
    define r where "r = f p mod (RAND_MAX + 1)"
    define k where "k = sint ((word_of_nat r :: uint32_t) mod (sz - 2))"
    from True have l: "unat i < unat (sz - 2)" by (simp add: word_less_nat_alt)
    have pos: "0 < sz - 2" using True by unat_arith
    have k: "0 \<le> k \<and> nat k < unat (sz - 2)"
      unfolding k_def r_def using shuffle_index [OF pos] by simp
    have li: "unat i < length ns" using l "1.prems" by simp
    have lk: "nat k < length ns" using k "1.prems" by simp
    define ns2 where "ns2 = ns[unat i := ns ! nat k, nat k := ns ! unat i]"
    have len: "length ns2 = unat (sz - 2)" using "1.prems" by (simp add: ns2_def)
    have dt: "distinct ns2 = distinct ns" unfolding ns2_def using li lk by (rule distinct_swap)
    have rd: "rand rs = (r, (f, Suc p))" by (simp add: rs r_def)
    have u: "numbers_shuffle i ns sz rs = numbers_shuffle (i + 1) ns2 sz (f, Suc p)"
      apply (subst numbers_shuffle.simps)
      using True li k lk
      apply (simp add: rd Let_def k_def [symmetric] ns2_def del: rand.simps)
      done
    have "distinct ns' = distinct ns2"
      using "1.IH" [OF True refl rd [symmetric] k_def _ _ refl refl refl] li k lk len
        "1.prems"(2) [unfolded u]
      by (simp add: ns2_def)
    with dt show ?thesis by simp
  next
    case False
    then have "numbers_shuffle i ns sz rs = Inr (ns, rs)"
      by (subst numbers_shuffle.simps) simp
    with "1.prems"(2) show ?thesis by simp
  qed
qed

lemma unat_init_list:
  assumes "j < unat (sz - 2)"
  shows "unat (init_list sz ! j) = (if j < unat (sz div 2) then j else j + 1)"
proof -
  have "unat (sz - 2) < 4294967296" by (rule unat_lt32)
  with assms have b: "j < 4294967296" "j + 1 < 4294967296" by linarith+
  have n: "init_list sz ! j = (if j < unat (sz div 2) then word_of_nat j else word_of_nat j + 1)"
    using assms by (simp add: init_list_def)
  show ?thesis
  proof (cases "j < unat (sz div 2)")
    case True
    then show ?thesis using n b(1) by (simp add: unat_word_of_nat32)
  next
    case False
    have "word_of_nat j + 1 = (word_of_nat (j + 1) :: uint32_t)" by simp
    then show ?thesis using False n b(2) by (simp only: if_False unat_word_of_nat32)
  qed
qed

lemma distinct_init_list: "distinct (init_list sz)"
proof -
  have "\<And>i j. i < length (init_list sz) \<Longrightarrow> j < length (init_list sz) \<Longrightarrow> i \<noteq> j
      \<Longrightarrow> init_list sz ! i \<noteq> init_list sz ! j"
  proof
    fix i j
    assume i: "i < length (init_list sz)" and j: "j < length (init_list sz)" and ne: "i \<noteq> j"
      and eq: "init_list sz ! i = init_list sz ! j"
    from i j have ij: "i < unat (sz - 2)" "j < unat (sz - 2)" by (simp_all add: length_init_list)
    have "unat (init_list sz ! i) = (if i < unat (sz div 2) then i else i + 1)"
      "unat (init_list sz ! j) = (if j < unat (sz div 2) then j else j + 1)"
      using ij by (simp_all only: unat_init_list)
    with eq have "(if i < unat (sz div 2) then i else i + 1)
        = (if j < unat (sz div 2) then j else j + 1)" by simp
    with ne show False by (simp split: if_splits)
  qed
  then show ?thesis by (simp add: distinct_conv_nth)
qed

lemma relocated_calls:
  "relocated ([V4PingHelper_GetAddress a, PingSetAttribute b c, PingInstall d, AppStart e, AppStop f]
     @ map (relocation ord ex ns rs) js) = map (\<lambda>j. unat (ns ! j)) js"
  by (induction js) (simp_all add: relocated_def relocation_def split_beta)

lemma ping_calls:
  "ping_installs ([V4PingHelper_GetAddress a, PingSetAttribute b c, PingInstall d, AppStart e, AppStop f]
     @ map (relocation ord ex ns rs) js) = [d]"
  "ping_targets ([V4PingHelper_GetAddress a, PingSetAttribute b c, PingInstall d, AppStart e, AppStop f]
     @ map (relocation ord ex ns rs) js) = [a]"
  by (induction js) (simp_all add: ping_installs_def ping_targets_def relocation_def split_beta)

lemma take_nth_map: "k \<le> length xs \<Longrightarrow> map (\<lambda>j. f (xs ! j)) [0..<k] = map f (take k xs)"
  by (rule nth_equalityI) simp_all

lemma InstallApplications_relocated:
  assumes "3 \<le> size_m ex" "nodeRM ex \<le> size_m ex - 2"
    "unat (size_m ex) \<le> nodes ex" "unat (size_m ex) \<le> interfaces ex"
  shows "\<exists>ns. set ns = {w. w \<le> size_m ex - 2 \<and> w \<noteq> size_m ex div 2} \<and>
     length ns = unat (size_m ex - 2) \<and> distinct ns \<and>
     numbers_shuffle 0 (init_list (size_m ex)) (size_m ex) rs
       = Inr (ns, (fst rs, snd rs + unat (size_m ex - 2))) \<and>
     Aodv_InstallApplications ord ex rs =
       Inr ([V4PingHelper_GetAddress (unat (size_m ex - 1)),
             PingSetAttribute ''Verbose'' (BooleanValue True),
             PingInstall (unat (size_m ex div 2)),
             AppStart (Seconds (Val 0)),
             AppStop (TimeMinus (Seconds (Val (duration ex))) (Seconds (Val 0.001)))]
            @ map (relocation ord ex ns (fst rs, snd rs + unat (size_m ex - 2))) [0..<unat (nodeRM ex)],
            (fst rs, snd rs + unat (size_m ex - 2) + 3 * unat (nodeRM ex))) \<and>
     relocated (fst (projr (Aodv_InstallApplications ord ex rs)))
       = map unat (take (unat (nodeRM ex)) ns) \<and>
     distinct (relocated (fst (projr (Aodv_InstallApplications ord ex rs)))) \<and>
     length (relocated (fst (projr (Aodv_InstallApplications ord ex rs)))) = unat (nodeRM ex)"
proof -
  from InstallApplications_closed [OF assms, where rs = rs and ord = ord]
  obtain ns where ns: "set ns = {w. w \<le> size_m ex - 2 \<and> w \<noteq> size_m ex div 2}"
    "length ns = unat (size_m ex - 2)"
    "numbers_shuffle 0 (init_list (size_m ex)) (size_m ex) rs
       = Inr (ns, (fst rs, snd rs + unat (size_m ex - 2)))"
    "Aodv_InstallApplications ord ex rs =
       Inr ([V4PingHelper_GetAddress (unat (size_m ex - 1)),
             PingSetAttribute ''Verbose'' (BooleanValue True),
             PingInstall (unat (size_m ex div 2)),
             AppStart (Seconds (Val 0)),
             AppStop (TimeMinus (Seconds (Val (duration ex))) (Seconds (Val 0.001)))]
            @ map (relocation ord ex ns (fst rs, snd rs + unat (size_m ex - 2))) [0..<unat (nodeRM ex)],
            (fst rs, snd rs + unat (size_m ex - 2) + 3 * unat (nodeRM ex)))"
    by (elim exE conjE)
  have d: "distinct ns"
    using numbers_shuffle_distinct [OF length_init_list ns(3)] distinct_init_list by simp
  have k: "unat (nodeRM ex) \<le> length ns" using assms(2) ns(2) by (simp add: word_le_nat_alt)
  have r: "relocated (fst (projr (Aodv_InstallApplications ord ex rs)))
       = map unat (take (unat (nodeRM ex)) ns)"
    unfolding ns(4) sum.sel fst_conv relocated_calls using k by (rule take_nth_map)
  have "inj_on unat (set (take (unat (nodeRM ex)) ns))"
    by (rule inj_onI) (simp add: word_unat_eq_iff)
  then have dr: "distinct (map unat (take (unat (nodeRM ex)) ns))"
    using d by (simp add: distinct_map)
  have lr: "length (map unat (take (unat (nodeRM ex)) ns)) = unat (nodeRM ex)"
    using k by simp
  show ?thesis
    using ns d r dr lr by (intro exI [of _ ns]) (simp only: simp_thms)
qed

lemma after_setup_simps:
  "size_m (after_setup ex) = size_m ex" "nodeRM (after_setup ex) = nodeRM ex"
  "duration (after_setup ex) = duration ex"
  "nodes (after_setup ex) = nodes ex + unat (size_m ex)"
  "interfaces (after_setup ex) = nodes ex + unat (size_m ex)"
  by (simp_all add: after_setup_record)

lemma relocation_after_setup: "relocation ord (after_setup ex) = relocation ord ex"
  by (intro ext) (simp add: relocation_def after_setup_simps)

lemma InstallApplications_in_Run:
  assumes "3 \<le> size_m ex" "nodeRM ex \<le> size_m ex - 2"
  shows "\<exists>ns. set ns = {w. w \<le> size_m ex - 2 \<and> w \<noteq> size_m ex div 2} \<and>
     length ns = unat (size_m ex - 2) \<and> distinct ns \<and>
     numbers_shuffle 0 (init_list (size_m ex)) (size_m ex) rs
       = Inr (ns, (fst rs, snd rs + unat (size_m ex - 2))) \<and>
     Aodv_InstallApplications ord (after_setup ex) rs =
       Inr ([V4PingHelper_GetAddress (unat (size_m ex - 1)),
             PingSetAttribute ''Verbose'' (BooleanValue True),
             PingInstall (unat (size_m ex div 2)),
             AppStart (Seconds (Val 0)),
             AppStop (TimeMinus (Seconds (Val (duration ex))) (Seconds (Val 0.001)))]
            @ map (relocation ord ex ns (fst rs, snd rs + unat (size_m ex - 2))) [0..<unat (nodeRM ex)],
            (fst rs, snd rs + unat (size_m ex - 2) + 3 * unat (nodeRM ex))) \<and>
     relocated (fst (projr (Aodv_InstallApplications ord (after_setup ex) rs)))
       = map unat (take (unat (nodeRM ex)) ns) \<and>
     distinct (relocated (fst (projr (Aodv_InstallApplications ord (after_setup ex) rs)))) \<and>
     length (relocated (fst (projr (Aodv_InstallApplications ord (after_setup ex) rs)))) = unat (nodeRM ex)"
proof -
  have a: "3 \<le> size_m (after_setup ex)"
    "nodeRM (after_setup ex) \<le> size_m (after_setup ex) - 2"
    "unat (size_m (after_setup ex)) \<le> nodes (after_setup ex)"
    "unat (size_m (after_setup ex)) \<le> interfaces (after_setup ex)"
    using assms by (simp_all add: after_setup_simps)
  show ?thesis
    by (rule InstallApplications_relocated [OF a, where rs = rs and ord = ord,
          unfolded after_setup_simps(1-3) relocation_after_setup])
qed

lemma InstallApplications_fault_in_Run:
  assumes "nodes ex = 0"
  shows "isl (Aodv_InstallApplications ord (after_setup ex) rs) \<longleftrightarrow>
     \<not> (1 \<le> size_m ex \<and> (nodeRM ex = 0 \<or> (3 \<le> size_m ex \<and> nodeRM ex \<le> size_m ex - 2)))"
proof -
  have s: "nodes (after_setup ex) = unat (size_m (after_setup ex))"
    "interfaces (after_setup ex) = unat (size_m (after_setup ex))"
    using assms by (simp_all add: after_setup_simps)
  show ?thesis
    unfolding InstallApplications_fault_iff [OF s] after_setup_simps(1,2) ..
qed

lemma Run_fault_iff:
  assumes "nodes ex = 0"
  shows "isl (Aodv_Run ord ex rs) \<longleftrightarrow>
     \<not> (1 \<le> size_m ex \<and> (nodeRM ex = 0 \<or> (3 \<le> size_m ex \<and> nodeRM ex \<le> size_m ex - 2)))"
proof -
  have "isl (Aodv_Run ord ex rs) = isl (Aodv_InstallApplications ord (after_setup ex) rs)"
    unfolding Aodv_Run_unfold by (simp split: sum.splits)
  then show ?thesis
    unfolding InstallApplications_fault_in_Run [OF assms] .
qed

lemma Run_same_fault: "isl (Dsdv_Run ord ex rs) = isl (Aodv_Run ord ex rs)"
  unfolding Dsdv_Run_unfold Aodv_Run_unfold by (simp split: sum.splits)

text \<open>
  For \<^verbatim>\<open>size\<close> at least 3 and \<^verbatim>\<open>nodeRM\<close> at most \<^verbatim>\<open>size\<close> - 2, \<^verbatim>\<open>Run\<close> completes, and its calls are
  those of \<^verbatim>\<open>CreateNodes\<close>, \<^verbatim>\<open>CreateDevices\<close>, \<^verbatim>\<open>InstallInternetStack\<close> and \<^verbatim>\<open>InstallApplications\<close>,
  in this order, followed by the line \<^verbatim>\<open>Starting simulation\<close>, \<^verbatim>\<open>Simulator::Stop\<close> at the time
  \<^verbatim>\<open>duration\<close>, \<^verbatim>\<open>Simulator::Run\<close> and \<^verbatim>\<open>Simulator::Destroy\<close>.
\<close>

lemma Run_sequence_in_range:
  assumes "3 \<le> size_m ex" "nodeRM ex \<le> size_m ex - 2"
  shows "\<exists>c4 rs'.
     Aodv_InstallApplications ord (after_setup ex) rs = Inr (c4, rs')
     \<and> Aodv_Run ord ex rs =
         Inr (fst (Aodv_CreateNodes ex)
              @ fst (Aodv_CreateDevices (snd (Aodv_CreateNodes ex)))
              @ fst (Aodv_InstallInternetStack (snd (Aodv_CreateDevices (snd (Aodv_CreateNodes ex)))))
              @ c4
              @ [Cout ''Starting simulation'',
                 SimulatorStop (Seconds (Val (duration ex))),
                 SimulatorRun,
                 SimulatorDestroy],
              after_setup ex, rs')
     \<and> Dsdv_InstallApplications ord (after_setup ex) rs = Inr (c4, rs')
     \<and> Dsdv_Run ord ex rs =
         Inr (fst (Dsdv_CreateNodes ex)
              @ fst (Dsdv_CreateDevices (snd (Dsdv_CreateNodes ex)))
              @ fst (Dsdv_InstallInternetStack (snd (Dsdv_CreateDevices (snd (Dsdv_CreateNodes ex)))))
              @ c4
              @ [Cout ''Starting simulation'',
                 SimulatorStop (Seconds (Val (duration ex))),
                 SimulatorRun,
                 SimulatorDestroy],
              after_setup ex, rs')"
proof -
  have s: "size_m (after_setup ex) = size_m ex" "nodeRM (after_setup ex) = nodeRM ex"
    "unat (size_m (after_setup ex)) \<le> nodes (after_setup ex)"
    "unat (size_m (after_setup ex)) \<le> interfaces (after_setup ex)"
    by (simp_all add: after_setup_record)
  have s3: "3 \<le> size_m (after_setup ex)"
    and s4: "nodeRM (after_setup ex) \<le> size_m (after_setup ex) - 2"
    using assms s(1,2) by simp_all
  have "\<exists>r. Aodv_InstallApplications ord (after_setup ex) rs = Inr r"
    using InstallApplications_closed [OF s3 s4 s(3,4), where rs = rs and ord = ord]
    by (elim exE conjE) (rule exI)
  then obtain c4 rs' where r: "Aodv_InstallApplications ord (after_setup ex) rs = Inr (c4, rs')"
    by (metis surj_pair)
  have m: "map to_dsdv c4 = c4" using r by (rule to_dsdv_InstallApplications)
  have a: "Aodv_Run ord ex rs =
         Inr (fst (Aodv_CreateNodes ex)
              @ fst (Aodv_CreateDevices (snd (Aodv_CreateNodes ex)))
              @ fst (Aodv_InstallInternetStack (snd (Aodv_CreateDevices (snd (Aodv_CreateNodes ex)))))
              @ c4
              @ [Cout ''Starting simulation'',
                 SimulatorStop (Seconds (Val (duration ex))),
                 SimulatorRun,
                 SimulatorDestroy],
              after_setup ex, rs')"
    unfolding Aodv_Run_unfold r by simp
  have d: "duration (after_setup ex) = duration ex" by (simp add: after_setup_record)
  have b: "Dsdv_Run ord ex rs =
         Inr (fst (Dsdv_CreateNodes ex)
              @ fst (Dsdv_CreateDevices (snd (Dsdv_CreateNodes ex)))
              @ fst (Dsdv_InstallInternetStack (snd (Dsdv_CreateDevices (snd (Dsdv_CreateNodes ex)))))
              @ c4
              @ [Cout ''Starting simulation'',
                 SimulatorStop (Seconds (Val (duration ex))),
                 SimulatorRun,
                 SimulatorDestroy],
              after_setup ex, rs')"
    unfolding Dsdv_Run_def
    by (simp add: split_beta Let_def CreateNodes_same to_dsdv_CreateDevices
          to_dsdv_InstallInternetStack InstallApplications_same setup_object r d)
  show ?thesis using r a b by (simp add: InstallApplications_same)
qed

lemma Example_same: "DsdvExample = AodvExample"
  by (simp add: DsdvExample_def AodvExample_def)

lemma example_fail2_simps:
  "size_m example_fail2 = 5" "nodeRM example_fail2 = 2" "nodes example_fail2 = 0"
  "duration example_fail2 = 50"
  by (simp_all add: example_fail2_def AodvExample_def)

lemma example_fail2_pre:
  "3 \<le> size_m example_fail2" "nodeRM example_fail2 \<le> size_m example_fail2 - 2"
  by (simp_all add: example_fail2_simps)

lemma example_fail4_simps:
  "size_m example_fail4 = 5" "nodeRM example_fail4 = 4" "nodes example_fail4 = 0"
  by (simp_all add: example_fail4_def AodvExample_def)

lemma example_size2_simps:
  "size_m example_size2 = 2" "nodeRM example_size2 = 1" "nodes example_size2 = 0"
  by (simp_all add: example_size2_def AodvExample_def)


text \<open>The embedding evaluated on small inputs.\<close>

lemma numbers_init_5: "numbers_init 0 0 (replicate (unat ((5::uint32_t) - 2)) 0) 5 = Inr [0, 1, 3]"
  by (simp add: numbers_init.simps) (simp add: eval_nat_numeral)

lemma numbers_init_6: "numbers_init 0 0 (replicate (unat ((6::uint32_t) - 2)) 0) 6 = Inr [0, 1, 2, 4]"
  by (simp add: numbers_init.simps) (simp add: eval_nat_numeral)

lemma numbers_shuffle_5: "numbers_shuffle 0 [0, 1, 3] 5 rs0 = Inr ([0, 1, 3], (fst rs0, 3))"
  by (simp add: numbers_shuffle.simps rs0_def RAND_MAX_def)

lemma InstallApplications_fail2_left_to_right:
  "Aodv_InstallApplications left_to_right (after_setup example_fail2) rs0 =
     Inr ([V4PingHelper_GetAddress 4,
           PingSetAttribute ''Verbose'' (BooleanValue True),
           PingInstall 2,
           AppStart (Seconds (Val 0)),
           AppStop (TimeMinus (Seconds (Val 50)) (Seconds (Val 0.001))),
           Schedule_SetPosition (Seconds (Quot (Val 50) (Val 2))) 0 24 31 38,
           Schedule_SetPosition (Seconds (Quot (Val 50) (Val 2))) 1 45 52 59],
          (fst rs0, 9))"
  by (simp add: Aodv_InstallApplications_def after_setup_record example_fail2_def AodvExample_def
      numbers_init.simps numbers_shuffle.simps relocate_loop.simps rs0_def RAND_MAX_def
      right_to_left_def left_to_right_def)

lemma InstallApplications_fail2_right_to_left:
  "Aodv_InstallApplications right_to_left (after_setup example_fail2) rs0 =
     Inr ([V4PingHelper_GetAddress 4,
           PingSetAttribute ''Verbose'' (BooleanValue True),
           PingInstall 2,
           AppStart (Seconds (Val 0)),
           AppStop (TimeMinus (Seconds (Val 50)) (Seconds (Val 0.001))),
           Schedule_SetPosition (Seconds (Quot (Val 50) (Val 2))) 0 38 31 24,
           Schedule_SetPosition (Seconds (Quot (Val 50) (Val 2))) 1 59 52 45],
          (fst rs0, 9))"
  by (simp add: Aodv_InstallApplications_def after_setup_record example_fail2_def AodvExample_def
      numbers_init.simps numbers_shuffle.simps relocate_loop.simps rs0_def RAND_MAX_def
      right_to_left_def left_to_right_def)

lemma InstallApplications_fail4:
  "Aodv_InstallApplications ord (after_setup example_fail4) rs0 = Inl (OutOfRange_numbers 3)"
  by (simp add: Aodv_InstallApplications_def after_setup_record example_fail4_def AodvExample_def
      numbers_init.simps numbers_shuffle.simps relocate_loop.simps rs0_def RAND_MAX_def split_beta)

lemma InstallApplications_size2:
  "Aodv_InstallApplications ord (after_setup example_size2) rs = Inl (OutOfRange_numbers 0)"
  by (simp add: Aodv_InstallApplications_def after_setup_record example_size2_def AodvExample_def
      numbers_init.simps numbers_shuffle.simps relocate_loop.simps rs0_def RAND_MAX_def)


lemma Run_size2: "Aodv_Run ord example_size2 rs = Inl (OutOfRange_numbers 0)"
  by (simp add: Aodv_Run_unfold InstallApplications_size2)

lemma main_size2:
  "main ord [(''size'', UintV 2)] (CHR ''a'') rs =
     Undefined (OutOfRange_numbers 0)
       [Cout ''Enter 'a' for AODV, or 'd' for DSDV'',
        Cout ''Initiating AODV test...'',
        AddValue ''pcap'' ''Write PCAP traces.'' M_pcap,
        AddValue ''size'' ''Number of nodes.'' M_size,
        AddValue ''time'' ''Simulation time, s.'' M_duration,
        AddValue ''fail'' ''Number of Nodes to move away.'' M_nodeRM,
        Parse,
        SetSeed 1234]"
proof -
  have c: "Aodv_Configure [(''size'', UintV 2)] AodvExample =
      (True, [AddValue ''pcap'' ''Write PCAP traces.'' M_pcap,
        AddValue ''size'' ''Number of nodes.'' M_size,
        AddValue ''time'' ''Simulation time, s.'' M_duration,
        AddValue ''fail'' ''Number of Nodes to move away.'' M_nodeRM,
        Parse,
        SetSeed 1234], example_size2)"
    by (simp add: Aodv_Configure_def Let_def HandleArgument_def find_item_cmd example_size2_def
        cmd_calls_def Aodv_cmd_def cmd_AddValue_def AodvExample_def)
  show ?thesis by (simp add: main_def main_with_def c Run_size2)
qed

section \<open>The claims\<close>

subsection \<open>Configure\<close>

text \<open>
  Claim C1, as amended. For both \<^verbatim>\<open>AodvExample::Configure\<close> and \<^verbatim>\<open>DsdvExample::Configure\<close>, the
  parser registers exactly four flags, \<^verbatim>\<open>pcap\<close>, \<^verbatim>\<open>size\<close>, \<^verbatim>\<open>time\<close> and \<^verbatim>\<open>fail\<close>, bound in
  this order to the members \<^verbatim>\<open>pcap\<close>, \<^verbatim>\<open>size\<close>, \<^verbatim>\<open>duration\<close> and \<^verbatim>\<open>nodeRM\<close>; whatever the
  arguments and the object, a flag that is supplied (the value of its last occurrence
  being of the member's type) sets the member bound to it.
\<close>

theorem Configure_flags:
  "registered (fst (snd (Aodv_Configure argv ex))) =
     [(''pcap'', M_pcap), (''size'', M_size), (''time'', M_duration), (''fail'', M_nodeRM)]
   \<and> registered (fst (snd (Dsdv_Configure argv ex))) =
     [(''pcap'', M_pcap), (''size'', M_size), (''time'', M_duration), (''fail'', M_nodeRM)]
   \<and> (\<forall>b. map_of (rev argv) ''pcap'' = Some (BoolV b) \<longrightarrow>
        pcap (snd (snd (Aodv_Configure argv ex))) = b
        \<and> pcap (snd (snd (Dsdv_Configure argv ex))) = b)
   \<and> (\<forall>s. map_of (rev argv) ''size'' = Some (UintV s) \<longrightarrow>
        size_m (snd (snd (Aodv_Configure argv ex))) = s
        \<and> size_m (snd (snd (Dsdv_Configure argv ex))) = s)
   \<and> (\<forall>d. map_of (rev argv) ''time'' = Some (DoubleV d) \<longrightarrow>
        duration (snd (snd (Aodv_Configure argv ex))) = d
        \<and> duration (snd (snd (Dsdv_Configure argv ex))) = d)
   \<and> (\<forall>r. map_of (rev argv) ''fail'' = Some (UintV r) \<longrightarrow>
        nodeRM (snd (snd (Aodv_Configure argv ex))) = r
        \<and> nodeRM (snd (snd (Dsdv_Configure argv ex))) = r)"
  by (simp add: Configure_same registered_Configure Configure_object
      parse_pcap parse_size parse_time parse_fail)

text \<open>
  An instance of the theorem: the four flags supplied to a freshly constructed object of
  either class.
\<close>

theorem Configure_flags_witness:
  "map_of (rev argv0) ''pcap'' = Some (BoolV True)
   \<and> map_of (rev argv0) ''size'' = Some (UintV 10)
   \<and> map_of (rev argv0) ''time'' = Some (DoubleV 20)
   \<and> map_of (rev argv0) ''fail'' = Some (UintV 2)
   \<and> pcap (snd (snd (Aodv_Configure argv0 AodvExample))) = True
   \<and> size_m (snd (snd (Aodv_Configure argv0 AodvExample))) = 10
   \<and> duration (snd (snd (Aodv_Configure argv0 AodvExample))) = 20
   \<and> nodeRM (snd (snd (Aodv_Configure argv0 AodvExample))) = 2
   \<and> pcap (snd (snd (Dsdv_Configure argv0 DsdvExample))) = True
   \<and> size_m (snd (snd (Dsdv_Configure argv0 DsdvExample))) = 10
   \<and> duration (snd (snd (Dsdv_Configure argv0 DsdvExample))) = 20
   \<and> nodeRM (snd (snd (Dsdv_Configure argv0 DsdvExample))) = 2"
proof -
  have a: "map_of (rev argv0) ''pcap'' = Some (BoolV True)"
    and b: "map_of (rev argv0) ''size'' = Some (UintV 10)"
    and c: "map_of (rev argv0) ''time'' = Some (DoubleV 20)"
    and d: "map_of (rev argv0) ''fail'' = Some (UintV 2)"
    by (simp_all add: argv0_def)
  show ?thesis
    using Configure_flags [of argv0 AodvExample] Configure_flags [of argv0 DsdvExample] a b c d
    by blast
qed

text \<open>
  Claim C1 as stated speaks of exactly five flags: the calls of \<^verbatim>\<open>Configure\<close> register four.
\<close>

theorem Configure_flags_counterexample:
  "length (registered (fst (snd (Aodv_Configure [] AodvExample)))) \<noteq> 5
   \<and> length (registered (fst (snd (Dsdv_Configure [] DsdvExample)))) \<noteq> 5"
  by (simp add: Configure_same registered_Configure)

text \<open>
  Claim C10. \<^verbatim>\<open>Configure\<close>, for either protocol, sets the seed exactly once, and the seed is a
  function of the member \<^verbatim>\<open>size\<close> as parsed: 8765 if it is 45 and 1234 otherwise. The seed is
  given as a function of the arguments and the object, so equal arguments give equal seeds.
\<close>

theorem Configure_seed:
  "seeds (fst (snd (Aodv_Configure argv ex))) =
     [if size_m (snd (snd (Aodv_Configure argv ex))) = 45 then 8765 else 1234]
   \<and> seeds (fst (snd (Dsdv_Configure argv ex))) =
     [if size_m (snd (snd (Dsdv_Configure argv ex))) = 45 then 8765 else 1234]"
  by (simp add: Configure_same Aodv_Configure_def Let_def seeds_def cmd_calls_def Aodv_cmd_def
      cmd_AddValue_def)

subsection \<open>CreateNodes\<close>

text \<open>
  Claim C7. For every configured \<^verbatim>\<open>size\<close>, \<^verbatim>\<open>CreateNodes\<close> (the same function in both classes)
  creates \<^verbatim>\<open>size\<close> nodes, names node \<open>i\<close> \<^verbatim>\<open>node(i)\<close>, with \<open>i\<close> in decimal, for every \<open>i\<close> from 0
  up to \<^verbatim>\<open>size\<close> - 1, and installs on the whole container the random-disc position allocator
  with X = 175.0, Y = 175.0 and Rho uniform between 0 and 125, with the constant-position
  mobility model.
\<close>

theorem CreateNodes_creates_and_names:
  "fst (Aodv_CreateNodes ex) =
     [Cout (''Creating '' @ string_of_nat (unat (size_m ex)) @ '' nodes ''),
      Cout ''Nodes will be 175m apart.'',
      NodesCreate (size_m ex)]
     @ map (\<lambda>i. NamesAdd (''node('' @ string_of_nat i @ '')'') i) [0..<unat (size_m ex)]
     @ [SetPositionAllocator ''ns3::RandomDiscPositionAllocator''
          [(''X'', StringValue ''175.0''),
           (''Y'', StringValue ''175.0''),
           (''Rho'', StringValue ''ns3::UniformRandomVariable[Min=0|Max=125]'')],
        SetMobilityModel ''ns3::ConstantPositionMobilityModel'',
        MobilityInstall (nodes ex + unat (size_m ex))]
   \<and> nodes (snd (Aodv_CreateNodes ex)) = nodes ex + unat (size_m ex)
   \<and> Dsdv_CreateNodes ex = Aodv_CreateNodes ex"
  by (simp only: CreateNodes_calls CreateNodes_same CreateNodes_object simp_thms)
    simp

subsection \<open>The two drivers\<close>

text \<open>
  Claim C5. \<^verbatim>\<open>AodvExample\<close> and \<^verbatim>\<open>DsdvExample\<close> are equivalent drivers. The constructors set the
  same values; on the same arguments and object \<^verbatim>\<open>Configure\<close> returns the same result, makes
  the same calls and leaves the same object; on the same object and the same generator state,
  \<^verbatim>\<open>DsdvExample::Run\<close> ends as \<^verbatim>\<open>AodvExample::Run\<close> does (both with the same out-of-range index,
  or both with the same object and generator state), and its calls are those of
  \<^verbatim>\<open>AodvExample::Run\<close>, in the same order, with the routing helper \<^verbatim>\<open>DsdvHelper\<close> in place of
  \<^verbatim>\<open>AodvHelper\<close> and the prefix \<^verbatim>\<open>dsdv\<close> in place of \<^verbatim>\<open>aodv\<close> in the file names (\<open>to_dsdv\<close>). This
  holds for every order \<open>ord\<close> in which the arguments of \<^verbatim>\<open>Vector\<close> are evaluated, the same in the
  two classes.
\<close>

theorem drivers_equivalent:
  "DsdvExample = AodvExample
   \<and> Dsdv_Configure argv ex = Aodv_Configure argv ex
   \<and> Dsdv_Run ord ex rs =
       map_sum id (\<lambda>(cs, ex', rs'). (map to_dsdv cs, ex', rs')) (Aodv_Run ord ex rs)"
proof -
  have "Dsdv_Run ord ex rs =
       map_sum id (\<lambda>(cs, ex', rs'). (map to_dsdv cs, ex', rs')) (Aodv_Run ord ex rs)"
    unfolding Dsdv_Run_unfold Aodv_Run_unfold
    by (simp split: sum.splits)
  then show ?thesis
    by (simp add: Configure_same DsdvExample_def AodvExample_def)
qed

subsection \<open>main\<close>

text \<open>
  Claim C4, as amended. The failure handling of the program is in \<^verbatim>\<open>main\<close>, and is of two kinds.
  After the selection \<^verbatim>\<open>a\<close> or \<^verbatim>\<open>d\<close>, \<^verbatim>\<open>main\<close> calls \<^verbatim>\<open>Configure\<close> and checks the result: whatever
  the method called does, \<^verbatim>\<open>main\<close> ends in the fatal error \<^verbatim>\<open>Configuration failed. Aborted.\<close> if
  the result is false, and otherwise calls \<^verbatim>\<open>Run\<close> and returns 0. After any other selection
  \<^verbatim>\<open>main\<close> prints an error message and returns 0, configuring and running nothing. For every
  input both \<^verbatim>\<open>Configure\<close> functions return true; so with the methods of the two classes the
  fatal error is never raised, and \<^verbatim>\<open>main\<close> either prints the error message for the selection
  or goes on to \<^verbatim>\<open>Run\<close> after the calls of \<^verbatim>\<open>Configure\<close>.
\<close>

theorem main_failure_handling:
  "fst (Aodv_Configure argv ex) \<and> fst (Dsdv_Configure argv ex)
   \<and> main_with aodv_Configure aodv_Run dsdv_Configure dsdv_Run argv select rs =
       (if select = CHR ''a''
        then if fst (aodv_Configure argv AodvExample)
             then (case aodv_Run (snd (snd (aodv_Configure argv AodvExample))) rs of
                     Inl e \<Rightarrow>
                       Undefined e
                         ([Cout ''Enter 'a' for AODV, or 'd' for DSDV'', Cout ''Initiating AODV test...'']
                          @ fst (snd (aodv_Configure argv AodvExample)))
                   | Inr r \<Rightarrow>
                       Returned 0
                         ([Cout ''Enter 'a' for AODV, or 'd' for DSDV'', Cout ''Initiating AODV test...'']
                          @ fst (snd (aodv_Configure argv AodvExample)) @ fst r))
             else FatalError ''Configuration failed. Aborted.''
                    ([Cout ''Enter 'a' for AODV, or 'd' for DSDV'', Cout ''Initiating AODV test...'']
                     @ fst (snd (aodv_Configure argv AodvExample)))
        else if select = CHR ''d''
        then if fst (dsdv_Configure argv DsdvExample)
             then (case dsdv_Run (snd (snd (dsdv_Configure argv DsdvExample))) rs of
                     Inl e \<Rightarrow>
                       Undefined e
                         ([Cout ''Enter 'a' for AODV, or 'd' for DSDV'', Cout ''Initiating DSDV test...'']
                          @ fst (snd (dsdv_Configure argv DsdvExample)))
                   | Inr r \<Rightarrow>
                       Returned 0
                         ([Cout ''Enter 'a' for AODV, or 'd' for DSDV'', Cout ''Initiating DSDV test...'']
                          @ fst (snd (dsdv_Configure argv DsdvExample)) @ fst r))
             else FatalError ''Configuration failed. Aborted.''
                    ([Cout ''Enter 'a' for AODV, or 'd' for DSDV'', Cout ''Initiating DSDV test...'']
                     @ fst (snd (dsdv_Configure argv DsdvExample)))
        else Returned 0 [Cout ''Enter 'a' for AODV, or 'd' for DSDV'',
                         Cout ''ERROR: Incorrect selection, please run again.''])
   \<and> main ord argv select rs =
       (if select = CHR ''a''
        then (case Aodv_Run ord (snd (snd (Aodv_Configure argv AodvExample))) rs of
                Inl e \<Rightarrow>
                  Undefined e
                    ([Cout ''Enter 'a' for AODV, or 'd' for DSDV'', Cout ''Initiating AODV test...'']
                     @ fst (snd (Aodv_Configure argv AodvExample)))
              | Inr r \<Rightarrow>
                  Returned 0
                    ([Cout ''Enter 'a' for AODV, or 'd' for DSDV'', Cout ''Initiating AODV test...'']
                     @ fst (snd (Aodv_Configure argv AodvExample)) @ fst r))
        else if select = CHR ''d''
        then (case Dsdv_Run ord (snd (snd (Dsdv_Configure argv DsdvExample))) rs of
                Inl e \<Rightarrow>
                  Undefined e
                    ([Cout ''Enter 'a' for AODV, or 'd' for DSDV'', Cout ''Initiating DSDV test...'']
                     @ fst (snd (Dsdv_Configure argv DsdvExample)))
              | Inr r \<Rightarrow>
                  Returned 0
                    ([Cout ''Enter 'a' for AODV, or 'd' for DSDV'', Cout ''Initiating DSDV test...'']
                     @ fst (snd (Dsdv_Configure argv DsdvExample)) @ fst r))
        else Returned 0 [Cout ''Enter 'a' for AODV, or 'd' for DSDV'',
                         Cout ''ERROR: Incorrect selection, please run again.''])
   \<and> \<not> fatal (main ord argv select rs)"
proof -
  have c: "fst (Aodv_Configure argv ex)" "fst (Dsdv_Configure argv ex)"
    by (simp_all add: Configure_true Configure_same)
  have w: "main_with aodv_Configure aodv_Run dsdv_Configure dsdv_Run argv select rs =
       (if select = CHR ''a''
        then if fst (aodv_Configure argv AodvExample)
             then (case aodv_Run (snd (snd (aodv_Configure argv AodvExample))) rs of
                     Inl e \<Rightarrow>
                       Undefined e
                         ([Cout ''Enter 'a' for AODV, or 'd' for DSDV'', Cout ''Initiating AODV test...'']
                          @ fst (snd (aodv_Configure argv AodvExample)))
                   | Inr r \<Rightarrow>
                       Returned 0
                         ([Cout ''Enter 'a' for AODV, or 'd' for DSDV'', Cout ''Initiating AODV test...'']
                          @ fst (snd (aodv_Configure argv AodvExample)) @ fst r))
             else FatalError ''Configuration failed. Aborted.''
                    ([Cout ''Enter 'a' for AODV, or 'd' for DSDV'', Cout ''Initiating AODV test...'']
                     @ fst (snd (aodv_Configure argv AodvExample)))
        else if select = CHR ''d''
        then if fst (dsdv_Configure argv DsdvExample)
             then (case dsdv_Run (snd (snd (dsdv_Configure argv DsdvExample))) rs of
                     Inl e \<Rightarrow>
                       Undefined e
                         ([Cout ''Enter 'a' for AODV, or 'd' for DSDV'', Cout ''Initiating DSDV test...'']
                          @ fst (snd (dsdv_Configure argv DsdvExample)))
                   | Inr r \<Rightarrow>
                       Returned 0
                         ([Cout ''Enter 'a' for AODV, or 'd' for DSDV'', Cout ''Initiating DSDV test...'']
                          @ fst (snd (dsdv_Configure argv DsdvExample)) @ fst r))
             else FatalError ''Configuration failed. Aborted.''
                    ([Cout ''Enter 'a' for AODV, or 'd' for DSDV'', Cout ''Initiating DSDV test...'']
                     @ fst (snd (dsdv_Configure argv DsdvExample)))
        else Returned 0 [Cout ''Enter 'a' for AODV, or 'd' for DSDV'',
                         Cout ''ERROR: Incorrect selection, please run again.''])"
    for aodv_Configure aodv_Run dsdv_Configure dsdv_Run
    by (simp add: main_with_def Let_def split_beta split: sum.splits)
  have t: "fst (Aodv_Configure argv AodvExample)" "fst (Dsdv_Configure argv DsdvExample)"
    by (simp_all add: Configure_true Configure_same)
  have m: "main ord argv select rs =
       (if select = CHR ''a''
        then (case Aodv_Run ord (snd (snd (Aodv_Configure argv AodvExample))) rs of
                Inl e \<Rightarrow>
                  Undefined e
                    ([Cout ''Enter 'a' for AODV, or 'd' for DSDV'', Cout ''Initiating AODV test...'']
                     @ fst (snd (Aodv_Configure argv AodvExample)))
              | Inr r \<Rightarrow>
                  Returned 0
                    ([Cout ''Enter 'a' for AODV, or 'd' for DSDV'', Cout ''Initiating AODV test...'']
                     @ fst (snd (Aodv_Configure argv AodvExample)) @ fst r))
        else if select = CHR ''d''
        then (case Dsdv_Run ord (snd (snd (Dsdv_Configure argv DsdvExample))) rs of
                Inl e \<Rightarrow>
                  Undefined e
                    ([Cout ''Enter 'a' for AODV, or 'd' for DSDV'', Cout ''Initiating DSDV test...'']
                     @ fst (snd (Dsdv_Configure argv DsdvExample)))
              | Inr r \<Rightarrow>
                  Returned 0
                    ([Cout ''Enter 'a' for AODV, or 'd' for DSDV'', Cout ''Initiating DSDV test...'']
                     @ fst (snd (Dsdv_Configure argv DsdvExample)) @ fst r))
        else Returned 0 [Cout ''Enter 'a' for AODV, or 'd' for DSDV'',
                         Cout ''ERROR: Incorrect selection, please run again.''])"
    unfolding main_def w using t by simp
  have f: "\<not> fatal (main ord argv select rs)" by (rule main_not_fatal)
  from c w m f show ?thesis by (intro conjI)
qed

text \<open>
  Instances: a \<^verbatim>\<open>Configure\<close> that returns false leads \<^verbatim>\<open>main\<close> to the fatal error; with the
  methods of the two classes, the selection \<^verbatim>\<open>x\<close> gives the error message, and the selection
  \<^verbatim>\<open>a\<close> does not end in the fatal error.
\<close>

theorem main_failure_handling_witness:
  "main_with (\<lambda>argv ex. (False, [Parse], ex)) (Aodv_Run right_to_left) Dsdv_Configure (Dsdv_Run right_to_left)
       [] (CHR ''a'') rs0 =
     FatalError ''Configuration failed. Aborted.''
       [Cout ''Enter 'a' for AODV, or 'd' for DSDV'', Cout ''Initiating AODV test...'', Parse]
   \<and> main right_to_left argv0 (CHR ''x'') rs0 =
       Returned 0 [Cout ''Enter 'a' for AODV, or 'd' for DSDV'',
                   Cout ''ERROR: Incorrect selection, please run again.'']
   \<and> fst (Aodv_Configure argv0 AodvExample) \<and> fst (Dsdv_Configure argv0 DsdvExample)
   \<and> \<not> fatal (main right_to_left argv0 (CHR ''a'') rs0)"
proof -
  note a = main_failure_handling [where aodv_Configure = "\<lambda>argv ex. (False, [Parse], ex)"
      and aodv_Run = "Aodv_Run right_to_left" and dsdv_Configure = Dsdv_Configure
      and dsdv_Run = "Dsdv_Run right_to_left" and argv = "[]" and select = "CHR ''a''" and rs = rs0
      and ord = right_to_left and ex = AodvExample]
  note b = main_failure_handling [where aodv_Configure = Aodv_Configure
      and aodv_Run = "Aodv_Run right_to_left" and dsdv_Configure = Dsdv_Configure
      and dsdv_Run = "Dsdv_Run right_to_left" and argv = argv0 and select = "CHR ''x''" and rs = rs0
      and ord = right_to_left and ex = AodvExample]
  note c = main_failure_handling [where aodv_Configure = Aodv_Configure
      and aodv_Run = "Aodv_Run right_to_left" and dsdv_Configure = Dsdv_Configure
      and dsdv_Run = "Dsdv_Run right_to_left" and argv = argv0 and select = "CHR ''a''" and rs = rs0
      and ord = right_to_left and ex = DsdvExample]
  have 1: "main_with (\<lambda>argv ex. (False, [Parse], ex)) (Aodv_Run right_to_left) Dsdv_Configure (Dsdv_Run right_to_left)
       [] (CHR ''a'') rs0 =
     FatalError ''Configuration failed. Aborted.''
       [Cout ''Enter 'a' for AODV, or 'd' for DSDV'', Cout ''Initiating AODV test...'', Parse]"
    using a [THEN conjunct2, THEN conjunct2, THEN conjunct1] by simp
  have 2: "main right_to_left argv0 (CHR ''x'') rs0 =
       Returned 0 [Cout ''Enter 'a' for AODV, or 'd' for DSDV'',
                   Cout ''ERROR: Incorrect selection, please run again.'']"
    using b [THEN conjunct2, THEN conjunct2, THEN conjunct2, THEN conjunct1] by simp
  have 3: "fst (Aodv_Configure argv0 AodvExample)" by (rule b [THEN conjunct1])
  have 4: "fst (Dsdv_Configure argv0 DsdvExample)" by (rule c [THEN conjunct2, THEN conjunct1])
  have 5: "\<not> fatal (main right_to_left argv0 (CHR ''a'') rs0)"
    by (rule c [THEN conjunct2, THEN conjunct2, THEN conjunct2, THEN conjunct2])
  from 1 2 3 4 5 show ?thesis by (intro conjI)
qed

text \<open>
  Claim C4 as stated has the check on the result of \<^verbatim>\<open>Configure\<close> as the only failure
  handling: with the selection \<^verbatim>\<open>x\<close>, \<^verbatim>\<open>main\<close> reports an error although \<^verbatim>\<open>Configure\<close> was
  never called.
\<close>

theorem main_failure_handling_counterexample:
  "Cout ''ERROR: Incorrect selection, please run again.''
     \<in> set (case main right_to_left [] (CHR ''x'') rs0 of
               Returned n cs \<Rightarrow> cs | FatalError msg cs \<Rightarrow> cs | Undefined e cs \<Rightarrow> cs)
   \<and> Parse \<notin> set (case main right_to_left [] (CHR ''x'') rs0 of
               Returned n cs \<Rightarrow> cs | FatalError msg cs \<Rightarrow> cs | Undefined e cs \<Rightarrow> cs)"
  by (simp add: main_def main_with_def)

subsection \<open>Run\<close>

text \<open>
  Claim C6. \<^verbatim>\<open>Run\<close> has no branch, and for \<^verbatim>\<open>size\<close> at least 3 and \<^verbatim>\<open>nodeRM\<close> at most \<^verbatim>\<open>size\<close> - 2
  its calls are the fixed sequence of the claim (lemma \<open>Run_sequence_in_range\<close>). The claim
  is about every configuration, and there the code falls short of it: \<^verbatim>\<open>InstallApplications\<close>
  does not check \<^verbatim>\<open>size\<close> and \<^verbatim>\<open>nodeRM\<close> before it indexes \<^verbatim>\<open>numbers\<close>. With the argument
  \<^verbatim>\<open>--size=2\<close> (and \<^verbatim>\<open>nodeRM\<close> 1, as constructed) the array has no element and the last loop of
  \<^verbatim>\<open>InstallApplications\<close> reads \<^verbatim>\<open>numbers[0]\<close>: from this call on the behaviour of \<^verbatim>\<open>Run\<close> is
  undefined, and nothing guarantees the rest of the sequence. The embedding at this input,
  for every order of evaluation and every state of the generator, stops at the read.
\<close>

theorem Run_size2_out_of_range:
  "size_m (snd (snd (Aodv_Configure [(''size'', UintV 2)] AodvExample))) = 2
   \<and> nodeRM (snd (snd (Aodv_Configure [(''size'', UintV 2)] AodvExample))) = 1
   \<and> Aodv_Run ord (snd (snd (Aodv_Configure [(''size'', UintV 2)] AodvExample))) rs
     = Inl (OutOfRange_numbers 0)
   \<and> Dsdv_Run ord (snd (snd (Dsdv_Configure [(''size'', UintV 2)] DsdvExample))) rs
     = Inl (OutOfRange_numbers 0)"
proof -
  have c: "snd (snd (Aodv_Configure [(''size'', UintV 2)] AodvExample)) = example_size2"
    by (simp add: Aodv_Configure_def Let_def HandleArgument_def find_item_cmd example_size2_def)
  have "Dsdv_Run ord example_size2 rs = Inl (OutOfRange_numbers 0)"
    by (simp add: Dsdv_Run_unfold InstallApplications_size2)
  then show ?thesis
    by (simp add: c Example_same Configure_same Run_size2 example_size2_simps)
qed

subsection \<open>InstallApplications\<close>

text \<open>
  In the following the object is the one \<^verbatim>\<open>Run\<close> passes on: \<open>after_setup ex\<close>, for any \<open>ex\<close>.

  Claim C2, as amended. For every run of \<^verbatim>\<open>InstallApplications\<close>, of either protocol, with
  \<^verbatim>\<open>size\<close> at least 3 and \<^verbatim>\<open>nodeRM\<close> at most \<^verbatim>\<open>size\<close> - 2, exactly one ping application is
  installed, on node \<^verbatim>\<open>size/2\<close> and targeting the address of node \<^verbatim>\<open>size-1\<close>, and exactly
  \<^verbatim>\<open>nodeRM\<close> relocation events are scheduled (one with the value 1 that the constructor gives
  \<^verbatim>\<open>nodeRM\<close>).
\<close>

theorem ping_and_relocations:
  assumes "3 \<le> size_m ex" "nodeRM ex \<le> size_m ex - 2"
  shows "\<exists>cs rs'.
     Aodv_InstallApplications ord (after_setup ex) rs = Inr (cs, rs')
     \<and> Dsdv_InstallApplications ord (after_setup ex) rs = Inr (cs, rs')
     \<and> ping_installs cs = [unat (size_m ex div 2)]
     \<and> ping_targets cs = [unat (size_m ex - 1)]
     \<and> length (relocated cs) = unat (nodeRM ex)"
proof -
  from InstallApplications_in_Run [OF assms, where rs = rs and ord = ord]
  obtain ns where ns:
    "Aodv_InstallApplications ord (after_setup ex) rs =
       Inr ([V4PingHelper_GetAddress (unat (size_m ex - 1)),
             PingSetAttribute ''Verbose'' (BooleanValue True),
             PingInstall (unat (size_m ex div 2)),
             AppStart (Seconds (Val 0)),
             AppStop (TimeMinus (Seconds (Val (duration ex))) (Seconds (Val 0.001)))]
            @ map (relocation ord ex ns (fst rs, snd rs + unat (size_m ex - 2))) [0..<unat (nodeRM ex)],
            (fst rs, snd rs + unat (size_m ex - 2) + 3 * unat (nodeRM ex)))"
    by (elim exE conjE)
  define cs where "cs =
      [V4PingHelper_GetAddress (unat (size_m ex - 1)),
       PingSetAttribute ''Verbose'' (BooleanValue True),
       PingInstall (unat (size_m ex div 2)),
       AppStart (Seconds (Val 0)),
       AppStop (TimeMinus (Seconds (Val (duration ex))) (Seconds (Val 0.001)))]
      @ map (relocation ord ex ns (fst rs, snd rs + unat (size_m ex - 2))) [0..<unat (nodeRM ex)]"
  define rs' where "rs' = (fst rs, snd rs + unat (size_m ex - 2) + 3 * unat (nodeRM ex))"
  have a: "Aodv_InstallApplications ord (after_setup ex) rs = Inr (cs, rs')"
    unfolding ns cs_def rs'_def ..
  have d: "Dsdv_InstallApplications ord (after_setup ex) rs = Inr (cs, rs')"
    unfolding InstallApplications_same by (rule a)
  have p: "ping_installs cs = [unat (size_m ex div 2)]" unfolding cs_def by (rule ping_calls(1))
  have t: "ping_targets cs = [unat (size_m ex - 1)]" unfolding cs_def by (rule ping_calls(2))
  have l: "length (relocated cs) = unat (nodeRM ex)" unfolding cs_def relocated_calls by simp
  from a d p t l show ?thesis by blast
qed

text \<open>
  An instance: 5 nodes, of which 2 are to be moved, the arguments of \<^verbatim>\<open>Vector\<close> being evaluated
  from right to left.
\<close>

theorem ping_and_relocations_witness:
  "3 \<le> size_m example_fail2 \<and> nodeRM example_fail2 \<le> size_m example_fail2 - 2
   \<and> (\<exists>cs rs'.
     Aodv_InstallApplications right_to_left (after_setup example_fail2) rs0 = Inr (cs, rs')
     \<and> Dsdv_InstallApplications right_to_left (after_setup example_fail2) rs0 = Inr (cs, rs')
     \<and> ping_installs cs = [unat (size_m example_fail2 div 2)]
     \<and> ping_targets cs = [unat (size_m example_fail2 - 1)]
     \<and> length (relocated cs) = unat (nodeRM example_fail2))"
  using ping_and_relocations [OF example_fail2_pre, where rs = rs0 and ord = right_to_left] example_fail2_pre
  by (intro conjI)

text \<open>
  Claim C2 as stated has exactly one relocation event in every run: with \<^verbatim>\<open>--fail=2\<close> two are
  scheduled. The calls are given for the arguments of \<^verbatim>\<open>Vector\<close> evaluated from right to left
  and from left to right; the nodes relocated are the same.
\<close>

theorem ping_and_relocations_counterexample:
  "Aodv_InstallApplications right_to_left (after_setup example_fail2) rs0 =
     Inr ([V4PingHelper_GetAddress 4,
           PingSetAttribute ''Verbose'' (BooleanValue True),
           PingInstall 2,
           AppStart (Seconds (Val 0)),
           AppStop (TimeMinus (Seconds (Val 50)) (Seconds (Val 0.001))),
           Schedule_SetPosition (Seconds (Quot (Val 50) (Val 2))) 0 38 31 24,
           Schedule_SetPosition (Seconds (Quot (Val 50) (Val 2))) 1 59 52 45],
          (fst rs0, 9))
   \<and> Aodv_InstallApplications left_to_right (after_setup example_fail2) rs0 =
     Inr ([V4PingHelper_GetAddress 4,
           PingSetAttribute ''Verbose'' (BooleanValue True),
           PingInstall 2,
           AppStart (Seconds (Val 0)),
           AppStop (TimeMinus (Seconds (Val 50)) (Seconds (Val 0.001))),
           Schedule_SetPosition (Seconds (Quot (Val 50) (Val 2))) 0 24 31 38,
           Schedule_SetPosition (Seconds (Quot (Val 50) (Val 2))) 1 45 52 59],
          (fst rs0, 9))
   \<and> relocated (fst (projr (Aodv_InstallApplications right_to_left (after_setup example_fail2) rs0))) = [0, 1]
   \<and> relocated (fst (projr (Dsdv_InstallApplications right_to_left (after_setup example_fail2) rs0))) = [0, 1]
   \<and> relocated (fst (projr (Aodv_InstallApplications left_to_right (after_setup example_fail2) rs0))) = [0, 1]
   \<and> relocated (fst (projr (Dsdv_InstallApplications left_to_right (after_setup example_fail2) rs0))) = [0, 1]"
  by (simp add: InstallApplications_same InstallApplications_fail2_right_to_left
      InstallApplications_fail2_left_to_right relocated_def)

text \<open>
  Claim C3. For \<^verbatim>\<open>size\<close> at least 3 and \<^verbatim>\<open>nodeRM\<close> at most \<^verbatim>\<open>size\<close> - 2 the last loop of
  \<^verbatim>\<open>InstallApplications\<close> does what the claim says (lemma \<open>InstallApplications_in_Run\<close>): it
  schedules \<^verbatim>\<open>nodeRM\<close> calls \<open>relocation\<close>, for the different nodes \<^verbatim>\<open>numbers[0]\<close> to
  \<^verbatim>\<open>numbers[nodeRM-1]\<close>, each at the time \<^verbatim>\<open>Seconds (duration/2)\<close> and with three coordinates that
  are values of \<^verbatim>\<open>rand() % 10000\<close>, in whatever order the compiler evaluates them. The claim is
  about every \<^verbatim>\<open>nodeRM\<close>, and there the code falls short of it: the loop runs up to \<^verbatim>\<open>nodeRM\<close>
  without comparing it with the \<^verbatim>\<open>size-2\<close> elements of \<^verbatim>\<open>numbers\<close>. With 5 nodes, as
  constructed, and \<^verbatim>\<open>--fail=4\<close> the array has 3 elements and the loop reads \<^verbatim>\<open>numbers[3]\<close>; the
  behaviour is undefined from there, and the relocation of 4 nodes is not what happens. The
  embedding at this input stops with an index out of range, for every order of evaluation
  and every state of the generator; with the state \<open>rs0\<close> the index is shown.
\<close>

theorem relocations_fail4_out_of_range:
  "size_m (snd (snd (Aodv_Configure [(''fail'', UintV 4)] AodvExample))) = 5
   \<and> nodeRM (snd (snd (Aodv_Configure [(''fail'', UintV 4)] AodvExample))) = 4
   \<and> snd (snd (Dsdv_Configure [(''fail'', UintV 4)] DsdvExample))
       = snd (snd (Aodv_Configure [(''fail'', UintV 4)] AodvExample))
   \<and> isl (Aodv_InstallApplications ord
            (after_setup (snd (snd (Aodv_Configure [(''fail'', UintV 4)] AodvExample)))) rs)
   \<and> isl (Dsdv_InstallApplications ord
            (after_setup (snd (snd (Aodv_Configure [(''fail'', UintV 4)] AodvExample)))) rs)
   \<and> Aodv_InstallApplications ord
        (after_setup (snd (snd (Aodv_Configure [(''fail'', UintV 4)] AodvExample)))) rs0
       = Inl (OutOfRange_numbers 3)
   \<and> Dsdv_InstallApplications ord
        (after_setup (snd (snd (Aodv_Configure [(''fail'', UintV 4)] AodvExample)))) rs0
       = Inl (OutOfRange_numbers 3)"
proof -
  have c: "snd (snd (Aodv_Configure [(''fail'', UintV 4)] AodvExample)) = example_fail4"
    by (simp add: Aodv_Configure_def Let_def HandleArgument_def find_item_cmd example_fail4_def)
  have i: "isl (Aodv_InstallApplications ord (after_setup example_fail4) rs)"
    unfolding InstallApplications_fault_in_Run [OF example_fail4_simps(3)]
    by (simp add: example_fail4_simps)
  show ?thesis
    using i
    by (simp add: c Example_same Configure_same InstallApplications_same InstallApplications_fail4
        example_fail4_simps)
qed

text \<open>
  Claim C8. For every \<^verbatim>\<open>size\<close> of at least 3 and \<^verbatim>\<open>nodeRM\<close> of at most \<^verbatim>\<open>size\<close> - 2, the array
  \<^verbatim>\<open>numbers\<close> holds, after the first loop and still after the shuffle, exactly the node indices
  from 0 to \<^verbatim>\<open>size-2\<close> without \<^verbatim>\<open>size/2\<close>; the relocated nodes are the first \<^verbatim>\<open>nodeRM\<close> elements of
  the shuffled array, so neither the ping source \<^verbatim>\<open>size/2\<close> nor the ping destination \<^verbatim>\<open>size-1\<close>
  is relocated.
\<close>

theorem relocation_candidates:
  assumes "3 \<le> size_m ex" "nodeRM ex \<le> size_m ex - 2"
  shows "\<exists>ns ns' rs1 cs rs2.
     numbers_init 0 0 (replicate (unat (size_m ex - 2)) 0) (size_m ex) = Inr ns
     \<and> set ns = {w. w \<le> size_m ex - 2 \<and> w \<noteq> size_m ex div 2}
     \<and> numbers_shuffle 0 ns (size_m ex) rs = Inr (ns', rs1)
     \<and> set ns' = set ns
     \<and> Aodv_InstallApplications ord (after_setup ex) rs = Inr (cs, rs2)
     \<and> Dsdv_InstallApplications ord (after_setup ex) rs = Inr (cs, rs2)
     \<and> relocated cs = map unat (take (unat (nodeRM ex)) ns')
     \<and> set (relocated cs) \<subseteq> unat ` {w. w \<le> size_m ex - 2 \<and> w \<noteq> size_m ex div 2}
     \<and> unat (size_m ex div 2) \<notin> set (relocated cs)
     \<and> unat (size_m ex - 1) \<notin> set (relocated cs)"
proof -
  from InstallApplications_in_Run [OF assms, where rs = rs and ord = ord]
  obtain ns' where ns:
    "set ns' = {w. w \<le> size_m ex - 2 \<and> w \<noteq> size_m ex div 2}"
    "numbers_shuffle 0 (init_list (size_m ex)) (size_m ex) rs
       = Inr (ns', (fst rs, snd rs + unat (size_m ex - 2)))"
    "Aodv_InstallApplications ord (after_setup ex) rs =
       Inr ([V4PingHelper_GetAddress (unat (size_m ex - 1)),
             PingSetAttribute ''Verbose'' (BooleanValue True),
             PingInstall (unat (size_m ex div 2)),
             AppStart (Seconds (Val 0)),
             AppStop (TimeMinus (Seconds (Val (duration ex))) (Seconds (Val 0.001)))]
            @ map (relocation ord ex ns' (fst rs, snd rs + unat (size_m ex - 2))) [0..<unat (nodeRM ex)],
            (fst rs, snd rs + unat (size_m ex - 2) + 3 * unat (nodeRM ex)))"
    and r: "relocated (fst (projr (Aodv_InstallApplications ord (after_setup ex) rs)))
       = map unat (take (unat (nodeRM ex)) ns')"
    by (elim exE conjE)
  define cs where "cs =
      [V4PingHelper_GetAddress (unat (size_m ex - 1)),
       PingSetAttribute ''Verbose'' (BooleanValue True),
       PingInstall (unat (size_m ex div 2)),
       AppStart (Seconds (Val 0)),
       AppStop (TimeMinus (Seconds (Val (duration ex))) (Seconds (Val 0.001)))]
      @ map (relocation ord ex ns' (fst rs, snd rs + unat (size_m ex - 2))) [0..<unat (nodeRM ex)]"
  define rs2 where "rs2 = (fst rs, snd rs + unat (size_m ex - 2) + 3 * unat (nodeRM ex))"
  define rs1 where "rs1 = (fst rs, snd rs + unat (size_m ex - 2))"
  define E where "E = {w. w \<le> size_m ex - 2 \<and> w \<noteq> size_m ex div 2}"
  have i: "numbers_init 0 0 (replicate (unat (size_m ex - 2)) 0) (size_m ex)
      = Inr (init_list (size_m ex))"
    by (rule numbers_init_start)
  have si: "set (init_list (size_m ex)) = E"
    unfolding E_def using assms(1) by (rule set_init_list)
  have sh: "numbers_shuffle 0 (init_list (size_m ex)) (size_m ex) rs = Inr (ns', rs1)"
    unfolding rs1_def by (rule ns(2))
  have ss: "set ns' = set (init_list (size_m ex))" using ns(1) si by (simp add: E_def)
  have a: "Aodv_InstallApplications ord (after_setup ex) rs = Inr (cs, rs2)"
    unfolding ns(3) cs_def rs2_def ..
  have d: "Dsdv_InstallApplications ord (after_setup ex) rs = Inr (cs, rs2)"
    unfolding InstallApplications_same by (rule a)
  have rl: "relocated cs = map unat (take (unat (nodeRM ex)) ns')"
    using r unfolding a sum.sel fst_conv .
  have sub: "set (relocated cs) \<subseteq> unat ` E"
  proof -
    have "set (take (unat (nodeRM ex)) ns') \<subseteq> set ns'" by (rule set_take_subset)
    then show ?thesis unfolding rl using ns(1) by (auto simp: E_def)
  qed
  have src: "unat (size_m ex div 2) \<notin> unat ` E"
    by (auto simp: E_def word_unat_eq_iff)
  have one: "1 \<le> size_m ex" and two: "2 \<le> size_m ex"
    using assms(1) by (simp_all add: word_le_nat_alt)
  have u1: "unat (size_m ex - 1) = unat (size_m ex) - 1" using one by (subst unat_sub) simp_all
  have u2: "unat (size_m ex - 2) = unat (size_m ex) - 2" using two by (subst unat_sub) simp_all
  have n3: "3 \<le> unat (size_m ex)" using assms(1) by (simp add: word_le_nat_alt)
  have dst: "unat (size_m ex - 1) \<notin> unat ` E"
  proof
    assume "unat (size_m ex - 1) \<in> unat ` E"
    then obtain w where w: "w \<le> size_m ex - 2" "unat w = unat (size_m ex - 1)"
      by (auto simp: E_def)
    from w(1) have "unat w \<le> unat (size_m ex) - 2" by (simp add: word_le_nat_alt u2)
    with w(2) u1 n3 show False by simp
  qed
  have src': "unat (size_m ex div 2) \<notin> set (relocated cs)" using sub src by blast
  have dst': "unat (size_m ex - 1) \<notin> set (relocated cs)" using sub dst by blast
  show ?thesis
    apply (rule exI [where x = "init_list (size_m ex)"])
    apply (rule exI [where x = ns'])
    apply (rule exI [where x = rs1])
    apply (rule exI [where x = cs])
    apply (rule exI [where x = rs2])
    apply (intro conjI)
             apply (rule i)
            apply (rule si [unfolded E_def])
           apply (rule sh)
          apply (rule ss)
         apply (rule a)
        apply (rule d)
       apply (rule rl)
      apply (rule sub [unfolded E_def])
     apply (rule src')
    apply (rule dst')
    done
qed

text \<open>
  An instance: 5 nodes, of which 2 are to be moved, the arguments of \<^verbatim>\<open>Vector\<close> being evaluated
  from right to left.
\<close>

theorem relocation_candidates_witness:
  "3 \<le> size_m example_fail2 \<and> nodeRM example_fail2 \<le> size_m example_fail2 - 2
   \<and> (\<exists>cs rs2.
        Aodv_InstallApplications right_to_left (after_setup example_fail2) rs0 = Inr (cs, rs2)
        \<and> Dsdv_InstallApplications right_to_left (after_setup example_fail2) rs0 = Inr (cs, rs2)
        \<and> unat (size_m example_fail2 div 2) \<notin> set (relocated cs)
        \<and> unat (size_m example_fail2 - 1) \<notin> set (relocated cs))"
proof -
  from relocation_candidates [OF example_fail2_pre, where rs = rs0 and ord = right_to_left]
  have "\<exists>cs rs2.
        Aodv_InstallApplications right_to_left (after_setup example_fail2) rs0 = Inr (cs, rs2)
        \<and> Dsdv_InstallApplications right_to_left (after_setup example_fail2) rs0 = Inr (cs, rs2)
        \<and> unat (size_m example_fail2 div 2) \<notin> set (relocated cs)
        \<and> unat (size_m example_fail2 - 1) \<notin> set (relocated cs)"
    by (elim exE conjE) (intro exI conjI)
  with example_fail2_pre show ?thesis by (intro conjI)
qed




end
